theory Spec2Isabelle
  imports Complex_Main
begin

section \<open>The interior-point driver of the SAND topology optimisation program\<close>

text \<open>
  This theory embeds the optimisation driver of \<^verbatim>\<open>SAND.cc\<close>: the fraction-to-boundary
  step selector \<^verbatim>\<open>calculate_max_step_size\<close>, the exact merit function
  \<^verbatim>\<open>calculate_exact_merit\<close>, the penalty update and step scaling of
  \<^verbatim>\<open>find_max_step\<close>, the backtracking of \<^verbatim>\<open>take_scaled_step\<close>, the test
  \<^verbatim>\<open>check_convergence\<close> and the watchdog and barrier loops of \<^verbatim>\<open>run\<close>.

  Numbers. The program computes in \<^verbatim>\<open>double\<close>. A finite \<^verbatim>\<open>double\<close> is modelled by the
  real number it stands for and the arithmetic on finite values is the exact arithmetic
  of \<^typ>\<open>real\<close>: rounding and overflow are outside the model. One quotient of the
  driver has a computed divisor that can be zero (the trial penalty of
  \<^verbatim>\<open>find_max_step\<close>), so the penalty multiplier can become infinite, and with it the
  merit values; these quantities have a type of their own, with the IEEE 754 results
  for infinities and NaN.

  Collaborators. The finite-element assembly (\<^verbatim>\<open>assemble_system\<close>,
  \<^verbatim>\<open>calculate_test_rhs\<close>), the sparse direct solver and the quadrature data of the mesh
  are computed through the deal.II library, which is not part of the program. They are
  parameters of the model, collected in a record.
\<close>

subsection \<open>Vectors and block vectors\<close>

text \<open>
  The namespace \<^verbatim>\<open>SolutionBlocks\<close> names the nine blocks of every
  \<^verbatim>\<open>BlockVector<double>\<close> of the program, in this order (0 to 8).
\<close>

datatype solution_block =
    density
  | displacement
  | unfiltered_density
  | displacement_multiplier
  | unfiltered_density_multiplier
  | density_lower_slack
  | density_lower_slack_multiplier
  | density_upper_slack
  | density_upper_slack_multiplier

type_synonym vector = "real list"

type_synonym block_vector = "solution_block \<Rightarrow> vector"

text \<open>\<^verbatim>\<open>v.block(b)\<close> is the application \<open>v b\<close>.\<close>

definition vec_scale :: "real \<Rightarrow> vector \<Rightarrow> vector" where
  "vec_scale a xs = map (\<lambda>x. a * x) xs"

text \<open>
  deal.II adds vectors of equal size only (it asserts the sizes in debug mode). The
  model adds component by component up to the shorter length; the program only ever
  adds vectors of one block structure.
\<close>

definition vec_add :: "vector \<Rightarrow> vector \<Rightarrow> vector" where
  "vec_add xs ys = map2 (\<lambda>x y. x + y) xs ys"

definition is_non_negative :: "vector \<Rightarrow> bool" where
  "is_non_negative xs = list_all (\<lambda>x. 0 \<le> x) xs"

definition l1_norm :: "vector \<Rightarrow> real" where
  "l1_norm xs = sum_list (map (\<lambda>x. \<bar>x\<bar>) xs)"

definition linfty_norm :: "vector \<Rightarrow> real" where
  "linfty_norm xs = fold (\<lambda>x m. max \<bar>x\<bar> m) xs 0"

definition dot :: "vector \<Rightarrow> vector \<Rightarrow> real" where
  "dot xs ys = sum_list (map2 (\<lambda>x y. x * y) xs ys)"

definition block_scale :: "real \<Rightarrow> block_vector \<Rightarrow> block_vector" where
  "block_scale a v = (\<lambda>b. vec_scale a (v b))"

definition block_add :: "block_vector \<Rightarrow> block_vector \<Rightarrow> block_vector" where
  "block_add u v = (\<lambda>b. vec_add (u b) (v b))"

definition all_blocks :: "solution_block list" where
  "all_blocks = [density, displacement, unfiltered_density, displacement_multiplier,
     unfiltered_density_multiplier, density_lower_slack, density_lower_slack_multiplier,
     density_upper_slack, density_upper_slack_multiplier]"

text \<open>The \<open>l\<^sub>1\<close> norm of a block vector is the sum of the norms of its blocks.\<close>

definition block_l1_norm :: "block_vector \<Rightarrow> real" where
  "block_l1_norm v = sum_list (map (\<lambda>b. l1_norm (v b)) all_blocks)"

text \<open>Strict component-wise positivity of one block, and of the four slack blocks.\<close>

definition is_positive :: "vector \<Rightarrow> bool" where
  "is_positive xs = list_all (\<lambda>x. 0 < x) xs"

definition strictly_feasible :: "block_vector \<Rightarrow> bool" where
  "strictly_feasible state =
     (is_positive (state density_lower_slack) \<and>
      is_positive (state density_upper_slack) \<and>
      is_positive (state density_lower_slack_multiplier) \<and>
      is_positive (state density_upper_slack_multiplier))"

subsection \<open>\<^verbatim>\<open>calculate_max_step_size\<close>\<close>

definition min_fraction_to_boundary :: real where
  "min_fraction_to_boundary = 0.8"

definition max_fraction_to_boundary :: real where
  "max_fraction_to_boundary = 0.99999"

text \<open>The nested \<^verbatim>\<open>if\<close> at the head of \<^verbatim>\<open>calculate_max_step_size\<close>.\<close>

definition fraction_to_boundary :: "real \<Rightarrow> real" where
  "fraction_to_boundary barrier_size =
     (if min_fraction_to_boundary < 1 - barrier_size
      then (if 1 - barrier_size < max_fraction_to_boundary
            then 1 - barrier_size
            else max_fraction_to_boundary)
      else min_fraction_to_boundary)"

definition state_test :: "real \<Rightarrow> block_vector \<Rightarrow> block_vector \<Rightarrow> real \<Rightarrow> block_vector" where
  "state_test ftb state step step_size =
     block_add (block_scale ftb state) (block_scale step_size step)"

definition accept_s :: "real \<Rightarrow> block_vector \<Rightarrow> block_vector \<Rightarrow> real \<Rightarrow> bool" where
  "accept_s ftb state step step_size_s =
     (is_non_negative (state_test ftb state step step_size_s density_lower_slack) \<and>
      is_non_negative (state_test ftb state step step_size_s density_upper_slack))"

definition accept_z :: "real \<Rightarrow> block_vector \<Rightarrow> block_vector \<Rightarrow> real \<Rightarrow> bool" where
  "accept_z ftb state step step_size_z =
     (is_non_negative (state_test ftb state step step_size_z density_lower_slack_multiplier) \<and>
      is_non_negative (state_test ftb state step step_size_z density_upper_slack_multiplier))"

text \<open>
  The variables of the binary search: \<open>(step_size_s_low, step_size_s_high,
  step_size_z_low, step_size_z_high)\<close>. One pass of the loop body:
\<close>

type_synonym search_bounds = "real \<times> real \<times> real \<times> real"

fun search_pass :: "real \<Rightarrow> block_vector \<Rightarrow> block_vector \<Rightarrow> search_bounds \<Rightarrow> search_bounds" where
  "search_pass ftb state step (step_size_s_low, step_size_s_high, step_size_z_low, step_size_z_high) =
     (let step_size_s = (step_size_s_low + step_size_s_high) / 2;
          step_size_z = (step_size_z_low + step_size_z_high) / 2;
          (s_low, s_high) = (if accept_s ftb state step step_size_s
                             then (step_size_s, step_size_s_high)
                             else (step_size_s_low, step_size_s));
          (z_low, z_high) = (if accept_z ftb state step step_size_z
                             then (step_size_z, step_size_z_high)
                             else (step_size_z_low, step_size_z))
      in (s_low, s_high, z_low, z_high))"

text \<open>The loop runs the body 50 times from \<open>(0, 1, 0, 1)\<close> and returns the two lower bounds.\<close>

definition calculate_max_step_size :: "block_vector \<Rightarrow> block_vector \<Rightarrow> real \<Rightarrow> real \<times> real" where
  "calculate_max_step_size state step barrier_size =
     (case (search_pass (fraction_to_boundary barrier_size) state step ^^ 50) (0, 1, 0, 1) of
        (step_size_s_low, step_size_s_high, step_size_z_low, step_size_z_high) \<Rightarrow>
          (step_size_s_low, step_size_z_low))"

subsection \<open>Doubles that may be infinite\<close>

text \<open>
  The values of the penalty multiplier and of the quantities computed from it. On finite
  values the operations are those of the reals; on the special values they are those of
  IEEE 754: NaN propagates, \<open>\<infinity> - \<infinity>\<close>, \<open>\<infinity> * 0\<close> and \<open>\<infinity> / \<infinity>\<close> are NaN, every comparison with
  NaN is false. A zero divisor is taken as positive zero: the divisors of the driver are
  positive constants and \<^verbatim>\<open>.05 * constraint_norm\<close>, a sum of norms.
\<close>

datatype double = Finite real | PlusInfinity | MinusInfinity | NotANumber

instantiation double :: "{plus, minus, times, inverse, ord}"
begin

fun plus_double :: "double \<Rightarrow> double \<Rightarrow> double" where
  "plus_double (Finite a) (Finite b) = Finite (a + b)"
| "plus_double NotANumber y = NotANumber"
| "plus_double x NotANumber = NotANumber"
| "plus_double PlusInfinity MinusInfinity = NotANumber"
| "plus_double MinusInfinity PlusInfinity = NotANumber"
| "plus_double PlusInfinity y = PlusInfinity"
| "plus_double x PlusInfinity = PlusInfinity"
| "plus_double MinusInfinity y = MinusInfinity"
| "plus_double x MinusInfinity = MinusInfinity"

fun minus_double :: "double \<Rightarrow> double \<Rightarrow> double" where
  "minus_double (Finite a) (Finite b) = Finite (a - b)"
| "minus_double NotANumber y = NotANumber"
| "minus_double x NotANumber = NotANumber"
| "minus_double PlusInfinity PlusInfinity = NotANumber"
| "minus_double MinusInfinity MinusInfinity = NotANumber"
| "minus_double PlusInfinity y = PlusInfinity"
| "minus_double x MinusInfinity = PlusInfinity"
| "minus_double MinusInfinity y = MinusInfinity"
| "minus_double x PlusInfinity = MinusInfinity"

text \<open>The product of an infinity of sign \<open>positive\<close> with a finite factor.\<close>

fun infinity_times :: "bool \<Rightarrow> real \<Rightarrow> double" where
  "infinity_times positive b =
     (if b = 0 then NotANumber
      else if (0 < b) = positive then PlusInfinity
      else MinusInfinity)"

fun times_double :: "double \<Rightarrow> double \<Rightarrow> double" where
  "times_double (Finite a) (Finite b) = Finite (a * b)"
| "times_double NotANumber y = NotANumber"
| "times_double x NotANumber = NotANumber"
| "times_double PlusInfinity (Finite b) = infinity_times True b"
| "times_double MinusInfinity (Finite b) = infinity_times False b"
| "times_double (Finite a) PlusInfinity = infinity_times True a"
| "times_double (Finite a) MinusInfinity = infinity_times False a"
| "times_double PlusInfinity PlusInfinity = PlusInfinity"
| "times_double MinusInfinity MinusInfinity = PlusInfinity"
| "times_double PlusInfinity MinusInfinity = MinusInfinity"
| "times_double MinusInfinity PlusInfinity = MinusInfinity"

fun divide_double :: "double \<Rightarrow> double \<Rightarrow> double" where
  "divide_double (Finite a) (Finite b) =
     (if b \<noteq> 0 then Finite (a / b)
      else if 0 < a then PlusInfinity
      else if a < 0 then MinusInfinity
      else NotANumber)"
| "divide_double NotANumber y = NotANumber"
| "divide_double x NotANumber = NotANumber"
| "divide_double (Finite a) PlusInfinity = Finite 0"
| "divide_double (Finite a) MinusInfinity = Finite 0"
| "divide_double PlusInfinity (Finite b) = (if 0 \<le> b then PlusInfinity else MinusInfinity)"
| "divide_double MinusInfinity (Finite b) = (if 0 \<le> b then MinusInfinity else PlusInfinity)"
| "divide_double PlusInfinity y = NotANumber"
| "divide_double MinusInfinity y = NotANumber"

definition inverse_double :: "double \<Rightarrow> double" where
  "inverse_double x = divide (Finite 1) x"

fun less_double :: "double \<Rightarrow> double \<Rightarrow> bool" where
  "less_double (Finite a) (Finite b) = (a < b)"
| "less_double NotANumber y = False"
| "less_double x NotANumber = False"
| "less_double x MinusInfinity = False"
| "less_double PlusInfinity y = False"
| "less_double MinusInfinity y = True"
| "less_double x PlusInfinity = True"

fun less_eq_double :: "double \<Rightarrow> double \<Rightarrow> bool" where
  "less_eq_double (Finite a) (Finite b) = (a \<le> b)"
| "less_eq_double NotANumber y = False"
| "less_eq_double x NotANumber = False"
| "less_eq_double MinusInfinity y = True"
| "less_eq_double x PlusInfinity = True"
| "less_eq_double x MinusInfinity = False"
| "less_eq_double PlusInfinity y = False"

instance ..

end

subsection \<open>The collaborators: mesh data, assembly and solver\<close>

text \<open>
  The boundary indicators of the namespace \<^verbatim>\<open>BoundaryIds\<close>.
\<close>

definition no_force :: nat where
  "no_force = 101"

definition down_force :: nat where
  "down_force = 102"

definition held_still :: nat where
  "held_still = 103"

text \<open>
  What \<^verbatim>\<open>FEFaceValues\<close> provides at one quadrature point of a face: the weight
  \<^verbatim>\<open>JxW(q)\<close> and, for every degree of freedom of the displacement block, the value
  of its (vector-valued, \<open>dim = 2\<close>) shape function at the point; the shape functions
  of the degrees of freedom that do not belong to the cell are zero there.
\<close>

type_synonym tensor1 = "real \<times> real"

record face_q_point =
  JxW :: real
  displacement_shape_values :: "tensor1 list"

record face =
  at_boundary :: bool
  boundary_id :: nat
  q_points :: "face_q_point list"

text \<open>A cell is the list of its faces.\<close>

type_synonym cell = "face list"

type_synonym matrix = "real list list"

type_synonym block_matrix = "solution_block \<Rightarrow> solution_block \<Rightarrow> matrix"

text \<open>
  The environment of the driver: the active cells with their face quadrature data, the
  Newton matrix and right hand side that \<^verbatim>\<open>assemble_system\<close> builds from
  \<^verbatim>\<open>nonlinear_solution\<close> and the barrier size, the solution the direct solver returns
  (with the constraints distributed), and the residual \<^verbatim>\<open>calculate_test_rhs\<close>
  assembles for a test solution and a barrier size.
\<close>

record environment =
  active_cells :: "cell list"
  assembly :: "block_vector \<Rightarrow> real \<Rightarrow> block_matrix \<times> block_vector"
  direct_solver :: "block_matrix \<Rightarrow> block_vector \<Rightarrow> block_vector"
  calculate_test_rhs :: "block_vector \<Rightarrow> real \<Rightarrow> block_vector"

text \<open>The members of \<^verbatim>\<open>SANDTopOpt\<close> that the driver reads and writes.\<close>

record optimizer =
  system_matrix :: block_matrix
  system_rhs :: block_vector
  linear_solution :: block_vector
  nonlinear_solution :: block_vector
  penalty_multiplier :: double

definition assemble_system :: "environment \<Rightarrow> real \<Rightarrow> optimizer \<Rightarrow> optimizer" where
  "assemble_system E barrier_size opt =
     (case assembly E (nonlinear_solution opt) barrier_size of
        (m, rhs) \<Rightarrow> opt\<lparr>system_matrix := m, system_rhs := rhs\<rparr>)"

definition solve :: "environment \<Rightarrow> optimizer \<Rightarrow> optimizer" where
  "solve E opt = opt\<lparr>linear_solution := direct_solver E (system_matrix opt) (system_rhs opt)\<rparr>"

subsection \<open>\<^verbatim>\<open>calculate_exact_merit\<close>\<close>

text \<open>
  \<^verbatim>\<open>get_function_values\<close> for the displacement extractor: the finite-element function
  of the displacement block at a quadrature point.
\<close>

definition get_function_values :: "vector \<Rightarrow> face_q_point \<Rightarrow> tensor1" where
  "get_function_values u q =
     (sum_list (map2 (\<lambda>c phi. c * fst phi) u (displacement_shape_values q)),
      sum_list (map2 (\<lambda>c phi. c * snd phi) u (displacement_shape_values q)))"

definition contract :: "tensor1 \<Rightarrow> tensor1 \<Rightarrow> real" where
  "contract a b = fst a * fst b + snd a * snd b"

text \<open>\<^verbatim>\<open>Tensor<1, dim> traction; traction[1] = -1;\<close>\<close>

definition traction :: tensor1 where
  "traction = (0, - 1)"

text \<open>The first block of the function: the loops over cells, faces and quadrature points.\<close>

definition objective_function_merit :: "environment \<Rightarrow> block_vector \<Rightarrow> real" where
  "objective_function_merit E test_solution =
     sum_list (map (\<lambda>c.
       sum_list (map (\<lambda>f.
         if at_boundary f \<and> boundary_id f = down_force
         then sum_list (map (\<lambda>q.
                contract traction (get_function_values (test_solution displacement) q) * JxW q)
                (q_points f))
         else 0) c)) (active_cells E))"

text \<open>
  The second block: the four penalty terms are products with \<^verbatim>\<open>penalty_multiplier\<close>, which
  may be infinite, and the sum is formed from left to right.
\<close>

definition calculate_exact_merit :: "environment \<Rightarrow> optimizer \<Rightarrow> block_vector \<Rightarrow> real \<Rightarrow> double" where
  "calculate_exact_merit E opt test_solution barrier_size =
     (let test_rhs = calculate_test_rhs E test_solution barrier_size;
          elasticity_constraint_merit =
            penalty_multiplier opt * Finite (l1_norm (test_rhs displacement_multiplier));
          filter_constraint_merit =
            penalty_multiplier opt * Finite (l1_norm (test_rhs unfiltered_density_multiplier));
          lower_slack_merit =
            penalty_multiplier opt * Finite (l1_norm (test_rhs density_lower_slack_multiplier));
          upper_slack_merit =
            penalty_multiplier opt * Finite (l1_norm (test_rhs density_upper_slack_multiplier))
      in Finite (objective_function_merit E test_solution)
           + elasticity_constraint_merit
           + filter_constraint_merit
           + lower_slack_merit + upper_slack_merit)"

subsection \<open>\<^verbatim>\<open>find_max_step\<close>\<close>

definition vmult :: "matrix \<Rightarrow> vector \<Rightarrow> vector" where
  "vmult A x = map (\<lambda>row. dot row x) A"

definition decision_variables :: "solution_block list" where
  "decision_variables = [density, displacement, unfiltered_density]"

definition equality_constraints :: "solution_block list" where
  "equality_constraints = [displacement_multiplier, unfiltered_density_multiplier,
     density_lower_slack_multiplier, density_upper_slack_multiplier]"

definition hess_part :: "block_matrix \<Rightarrow> block_vector \<Rightarrow> real" where
  "hess_part m step =
     fold (\<lambda>i h. fold (\<lambda>j h'. h' + dot (step i) (vmult (m i j) (step j))) decision_variables h)
       decision_variables 0"

definition grad_part :: "block_vector \<Rightarrow> block_vector \<Rightarrow> real" where
  "grad_part rhs step = fold (\<lambda>i g. g - dot (rhs i) (step i)) decision_variables 0"

definition constraint_norm :: "block_vector \<Rightarrow> real" where
  "constraint_norm rhs = fold (\<lambda>i c. c + linfty_norm (rhs i)) equality_constraints 0"

text \<open>
  The quotient that defines \<^verbatim>\<open>test_penalty_multiplier\<close> is the only division of the
  driver by a computed value. The program does not test the divisor: when
  \<^verbatim>\<open>constraint_norm\<close> is zero the quotient is \<open>+\<infinity>\<close>, \<open>-\<infinity>\<close> or NaN according to the sign of
  the numerator, and nothing is raised.
\<close>

definition test_penalty_multiplier :: "optimizer \<Rightarrow> block_vector \<Rightarrow> double" where
  "test_penalty_multiplier opt step =
     (if 0 < hess_part (system_matrix opt) step
      then Finite (grad_part (system_rhs opt) step + 0.5 * hess_part (system_matrix opt) step)
             / Finite (0.05 * constraint_norm (system_rhs opt))
      else Finite (grad_part (system_rhs opt) step)
             / Finite (0.05 * constraint_norm (system_rhs opt)))"

text \<open>
  The value of \<^verbatim>\<open>penalty_multiplier\<close> after
  \<^verbatim>\<open>if (test_penalty_multiplier > penalty_multiplier) penalty_multiplier = test_penalty_multiplier;\<close>
\<close>

definition update_penalty_multiplier :: "double \<Rightarrow> double \<Rightarrow> double" where
  "update_penalty_multiplier penalty test = (if penalty < test then test else penalty)"

text \<open>
  The state of the members after the first three statements of \<^verbatim>\<open>find_max_step\<close>
  (\<^verbatim>\<open>nonlinear_solution = state; assemble_system(barrier_size); solve();\<close>).
\<close>

definition newton_system :: "environment \<Rightarrow> optimizer \<Rightarrow> block_vector \<Rightarrow> real \<Rightarrow> optimizer" where
  "newton_system E opt state barrier_size =
     solve E (assemble_system E barrier_size (opt\<lparr>nonlinear_solution := state\<rparr>))"

definition new_penalty_multiplier :: "environment \<Rightarrow> optimizer \<Rightarrow> block_vector \<Rightarrow> real \<Rightarrow> double" where
  "new_penalty_multiplier E opt state barrier_size =
     (let opt1 = newton_system E opt state barrier_size
      in update_penalty_multiplier (penalty_multiplier opt1)
           (test_penalty_multiplier opt1 (linear_solution opt1)))"

text \<open>The nine assignments to the blocks of \<^verbatim>\<open>max_step\<close>.\<close>

fun max_step_block :: "real \<Rightarrow> real \<Rightarrow> block_vector \<Rightarrow> solution_block \<Rightarrow> vector" where
  "max_step_block step_size_s step_size_z step density =
     vec_scale step_size_s (step density)"
| "max_step_block step_size_s step_size_z step displacement =
     vec_scale step_size_s (step displacement)"
| "max_step_block step_size_s step_size_z step unfiltered_density =
     vec_scale step_size_s (step unfiltered_density)"
| "max_step_block step_size_s step_size_z step displacement_multiplier =
     vec_scale step_size_z (step displacement_multiplier)"
| "max_step_block step_size_s step_size_z step unfiltered_density_multiplier =
     vec_scale step_size_z (step unfiltered_density_multiplier)"
| "max_step_block step_size_s step_size_z step density_lower_slack =
     vec_scale step_size_s (step density_lower_slack)"
| "max_step_block step_size_s step_size_z step density_lower_slack_multiplier =
     vec_scale step_size_z (step density_lower_slack_multiplier)"
| "max_step_block step_size_s step_size_z step density_upper_slack =
     vec_scale step_size_s (step density_upper_slack)"
| "max_step_block step_size_s step_size_z step density_upper_slack_multiplier =
     vec_scale step_size_z (step density_upper_slack_multiplier)"

text \<open>
  \<^verbatim>\<open>find_max_step\<close> returns the scaled step and leaves the members with the Newton system
  and the updated penalty multiplier, whatever the value of the multiplier.
\<close>

definition find_max_step ::
  "environment \<Rightarrow> optimizer \<Rightarrow> block_vector \<Rightarrow> real \<Rightarrow> block_vector \<times> optimizer" where
  "find_max_step E opt state barrier_size =
     (let opt1 = newton_system E opt state barrier_size;
          step = linear_solution opt1;
          opt2 = opt1\<lparr>penalty_multiplier := new_penalty_multiplier E opt state barrier_size\<rparr>
      in case calculate_max_step_size state step barrier_size of
           (step_size_s, step_size_z) \<Rightarrow> (max_step_block step_size_s step_size_z step, opt2))"

subsection \<open>\<^verbatim>\<open>take_scaled_step\<close>\<close>

text \<open>
  The loop \<^verbatim>\<open>for (k = 0; k < 10; ++k)\<close>, by recursion on the number of passes that
  remain; the result is the value of \<^verbatim>\<open>step_size\<close> when the loop is left.
\<close>

definition descent_test ::
  "environment \<Rightarrow> optimizer \<Rightarrow> block_vector \<Rightarrow> block_vector \<Rightarrow> real \<Rightarrow> real \<Rightarrow> real \<Rightarrow> bool" where
  "descent_test E opt state max_step descent_requirement barrier_size step_size =
     (let merit_derivative =
            (calculate_exact_merit E opt (block_add state (block_scale 0.0001 max_step)) barrier_size
               - calculate_exact_merit E opt state barrier_size) / Finite 0.0001
      in calculate_exact_merit E opt (block_add state (block_scale step_size max_step)) barrier_size
           < calculate_exact_merit E opt state barrier_size
               + Finite (step_size * descent_requirement) * merit_derivative)"

primrec scaled_step_size ::
  "environment \<Rightarrow> optimizer \<Rightarrow> block_vector \<Rightarrow> block_vector \<Rightarrow> real \<Rightarrow> real \<Rightarrow> nat \<Rightarrow> real \<Rightarrow> real" where
  "scaled_step_size E opt state max_step descent_requirement barrier_size 0 step_size = step_size"
| "scaled_step_size E opt state max_step descent_requirement barrier_size (Suc n) step_size =
     (if descent_test E opt state max_step descent_requirement barrier_size step_size
      then step_size
      else scaled_step_size E opt state max_step descent_requirement barrier_size n (step_size / 2))"

definition take_scaled_step ::
  "environment \<Rightarrow> optimizer \<Rightarrow> block_vector \<Rightarrow> block_vector \<Rightarrow> real \<Rightarrow> real \<Rightarrow> block_vector" where
  "take_scaled_step E opt state max_step descent_requirement barrier_size =
     block_add state
       (block_scale (scaled_step_size E opt state max_step descent_requirement barrier_size 10 1)
          max_step)"

subsection \<open>\<^verbatim>\<open>check_convergence\<close>\<close>

text \<open>
  \<^verbatim>\<open>check_convergence\<close> is a non-\<^verbatim>\<open>const\<close> member function: the model returns the
  members with the result.
\<close>

definition convergence_condition :: real where
  "convergence_condition = 0.01"

definition check_convergence ::
  "environment \<Rightarrow> optimizer \<Rightarrow> block_vector \<Rightarrow> real \<Rightarrow> bool \<times> optimizer" where
  "check_convergence E opt state barrier_size =
     (let test_rhs = calculate_test_rhs E state barrier_size
      in if block_l1_norm test_rhs < convergence_condition * barrier_size
         then (True, opt)
         else (False, opt))"

subsection \<open>\<^verbatim>\<open>run\<close>\<close>

definition min_barrier_size :: real where
  "min_barrier_size = 0.0005"

definition max_uphill_steps :: nat where
  "max_uphill_steps = 8"

definition descent_requirement :: real where
  "descent_requirement = 0.0001"

definition barrier_size_multiplier :: real where
  "barrier_size_multiplier = 0.8"

definition barrier_size_exponent :: real where
  "barrier_size_exponent = 1.2"

text \<open>
  The local variables of \<^verbatim>\<open>run\<close> that live across the loops, with the members of the
  class.
\<close>

record run_state =
  barrier_size :: real
  iteration_number :: nat
  current_state :: block_vector
  current_step :: block_vector
  members :: optimizer

text \<open>The variables declared in the body of the inner \<^verbatim>\<open>while\<close> loop.\<close>

record watchdog =
  found_step :: bool
  watchdog_step :: block_vector
  goal_merit :: double

text \<open>
  The loop \<^verbatim>\<open>for (k = 0; k < max_uphill_steps; ++k)\<close> with its \<^verbatim>\<open>break\<close>. The merit
  values are computed with the penalty multiplier that \<^verbatim>\<open>find_max_step\<close> has just left.
\<close>

function uphill_loop ::
  "environment \<Rightarrow> block_vector \<Rightarrow> nat \<Rightarrow> run_state \<Rightarrow> watchdog \<Rightarrow> run_state \<times> watchdog" where
  "uphill_loop E watchdog_state k rs w =
     (if k < max_uphill_steps
      then (case find_max_step E (members rs) (current_state rs) (barrier_size rs) of
              (step, opt) \<Rightarrow>
                (let wstep = (if k = 0 then step else watchdog_step w);
                     state = block_add (current_state rs) step;
                     current_merit = calculate_exact_merit E opt state (barrier_size rs);
                     merit_derivative =
                       (calculate_exact_merit E opt
                          (block_add watchdog_state (block_scale 0.0001 wstep)) (barrier_size rs)
                        - calculate_exact_merit E opt watchdog_state (barrier_size rs))
                       / Finite 0.0001;
                     goal = calculate_exact_merit E opt watchdog_state (barrier_size rs)
                              + Finite descent_requirement * merit_derivative;
                     rs1 = rs\<lparr>current_step := step, current_state := state, members := opt\<rparr>;
                     w1 = w\<lparr>watchdog_step := wstep, goal_merit := goal\<rparr>
                 in if current_merit < goal
                    then (rs1\<lparr>iteration_number := iteration_number rs + k + 1\<rparr>,
                          w1\<lparr>found_step := True\<rparr>)
                    else uphill_loop E watchdog_state (k + 1) rs1 w1))
      else (rs, w))"
  by pat_completeness auto
termination
  by (relation "measure (\<lambda>(E, watchdog_state, k, rs, w). max_uphill_steps - k)") auto

text \<open>The block \<^verbatim>\<open>if (!found_step) { ... }\<close>.\<close>

definition backtrack ::
  "environment \<Rightarrow> block_vector \<Rightarrow> run_state \<Rightarrow> watchdog \<Rightarrow> run_state" where
  "backtrack E watchdog_state rs w =
     (case find_max_step E (members rs) (current_state rs) (barrier_size rs) of
        (step, opt) \<Rightarrow>
          (let stretch_state =
                 take_scaled_step E opt (current_state rs) step descent_requirement (barrier_size rs);
               rs1 = rs\<lparr>current_step := step, members := opt\<rparr>
           in if calculate_exact_merit E opt (current_state rs) (barrier_size rs)
                   < calculate_exact_merit E opt watchdog_state (barrier_size rs)
                 \<or> calculate_exact_merit E opt stretch_state (barrier_size rs) < goal_merit w
              then rs1\<lparr>current_state := stretch_state,
                       iteration_number := iteration_number rs + max_uphill_steps + 1\<rparr>
              else if calculate_exact_merit E opt watchdog_state (barrier_size rs)
                        < calculate_exact_merit E opt stretch_state (barrier_size rs)
              then rs1\<lparr>current_state :=
                         take_scaled_step E opt watchdog_state (watchdog_step w)
                           descent_requirement (barrier_size rs),
                       iteration_number := iteration_number rs + max_uphill_steps + 1\<rparr>
              else (case find_max_step E opt stretch_state (barrier_size rs) of
                      (stretch_step, opt2) \<Rightarrow>
                        rs1\<lparr>members := opt2,
                            current_state :=
                              take_scaled_step E opt2 stretch_state stretch_step
                                descent_requirement (barrier_size rs),
                            iteration_number :=
                              iteration_number rs + max_uphill_steps + 2\<rparr>)))"

text \<open>
  One pass of the inner \<^verbatim>\<open>while\<close> loop up to \<^verbatim>\<open>output_results\<close>: a watchdog cycle.
  \<^verbatim>\<open>watchdog_step\<close> and \<^verbatim>\<open>goal_merit\<close> are declared without a value and assigned in the
  first pass of the \<^verbatim>\<open>for\<close> loop, before they are read; the model starts them at the
  empty block vector and 0.
\<close>

definition watchdog_cycle :: "environment \<Rightarrow> run_state \<Rightarrow> run_state" where
  "watchdog_cycle E rs =
     (let watchdog_state = current_state rs
      in case uphill_loop E watchdog_state 0 rs
                \<lparr>found_step = False, watchdog_step = (\<lambda>b. []), goal_merit = Finite 0\<rparr> of
           (rs1, w) \<Rightarrow> if \<not> found_step w then backtrack E watchdog_state rs1 w else rs1)"

text \<open>The update of the barrier size at the end of a pass of the outer loop.\<close>

definition update_barrier_size :: "real \<Rightarrow> real" where
  "update_barrier_size b =
     (if b * barrier_size_multiplier < b powr barrier_size_exponent
      then (if b * barrier_size_multiplier < min_barrier_size
            then min_barrier_size
            else b * barrier_size_multiplier)
      else (if b powr barrier_size_exponent < min_barrier_size
            then min_barrier_size
            else b powr barrier_size_exponent))"

text \<open>
  Every watchdog cycle adds at least 1 to \<^verbatim>\<open>iteration_number\<close>; this is why the two
  \<^verbatim>\<open>while\<close> loops of \<^verbatim>\<open>run\<close>, which stop at 10000 iterations, terminate.
\<close>

lemma uphill_loop_iteration_number:
  assumes "uphill_loop E ws k rs w = (rs', w')" and "\<not> found_step w"
  shows "if found_step w' then iteration_number rs < iteration_number rs'
         else iteration_number rs' = iteration_number rs"
  using assms
proof (induction E ws k rs w rule: uphill_loop.induct)
  case (1 E ws k rs w)
  show ?case
  proof (cases "k < max_uphill_steps")
    case False
    with "1.prems" show ?thesis by simp
  next
    case True
    obtain step opt
      where f: "find_max_step E (members rs) (current_state rs) (barrier_size rs) = (step, opt)"
      by (cases "find_max_step E (members rs) (current_state rs) (barrier_size rs)")
    show ?thesis
      using True f "1.prems" "1.IH"[OF True f[symmetric] refl refl refl refl refl refl refl]
      by (auto simp: Let_def split: if_splits)
  qed
qed

text \<open>The three branches of the backtracking block.\<close>

lemma backtrack_cases:
  obtains
    (stretch) step opt where
      "find_max_step E (members rs) (current_state rs) (barrier_size rs) = (step, opt)"
      "calculate_exact_merit E opt (current_state rs) (barrier_size rs)
         < calculate_exact_merit E opt ws (barrier_size rs)
       \<or> calculate_exact_merit E opt
            (take_scaled_step E opt (current_state rs) step descent_requirement (barrier_size rs))
            (barrier_size rs) < goal_merit w"
      "backtrack E ws rs w = rs\<lparr>current_step := step, members := opt,
                current_state := take_scaled_step E opt (current_state rs) step descent_requirement (barrier_size rs),
                iteration_number := iteration_number rs + max_uphill_steps + 1\<rparr>"
  | (from_watchdog) step opt where
      "find_max_step E (members rs) (current_state rs) (barrier_size rs) = (step, opt)"
      "\<not> (calculate_exact_merit E opt (current_state rs) (barrier_size rs)
         < calculate_exact_merit E opt ws (barrier_size rs)
       \<or> calculate_exact_merit E opt
            (take_scaled_step E opt (current_state rs) step descent_requirement (barrier_size rs))
            (barrier_size rs) < goal_merit w)"
      "calculate_exact_merit E opt ws (barrier_size rs)
         < calculate_exact_merit E opt
            (take_scaled_step E opt (current_state rs) step descent_requirement (barrier_size rs))
            (barrier_size rs)"
      "backtrack E ws rs w = rs\<lparr>current_step := step, members := opt,
                current_state := take_scaled_step E opt ws (watchdog_step w) descent_requirement (barrier_size rs),
                iteration_number := iteration_number rs + max_uphill_steps + 1\<rparr>"
  | (from_stretch) step opt stretch_step opt2 where
      "find_max_step E (members rs) (current_state rs) (barrier_size rs) = (step, opt)"
      "\<not> (calculate_exact_merit E opt (current_state rs) (barrier_size rs)
         < calculate_exact_merit E opt ws (barrier_size rs)
       \<or> calculate_exact_merit E opt
            (take_scaled_step E opt (current_state rs) step descent_requirement (barrier_size rs))
            (barrier_size rs) < goal_merit w)"
      "\<not> calculate_exact_merit E opt ws (barrier_size rs)
         < calculate_exact_merit E opt
            (take_scaled_step E opt (current_state rs) step descent_requirement (barrier_size rs))
            (barrier_size rs)"
      "find_max_step E opt
          (take_scaled_step E opt (current_state rs) step descent_requirement (barrier_size rs))
          (barrier_size rs) = (stretch_step, opt2)"
      "backtrack E ws rs w = rs\<lparr>current_step := step, members := opt2,
                current_state := take_scaled_step E opt2
                  (take_scaled_step E opt (current_state rs) step descent_requirement (barrier_size rs))
                  stretch_step descent_requirement (barrier_size rs),
                iteration_number := iteration_number rs + max_uphill_steps + 2\<rparr>"
proof -
  let ?b = "barrier_size rs"
  obtain step opt where f: "find_max_step E (members rs) (current_state rs) ?b = (step, opt)"
    by (cases "find_max_step E (members rs) (current_state rs) ?b")
  let ?stretch = "take_scaled_step E opt (current_state rs) step descent_requirement ?b"
  let ?c1 = "calculate_exact_merit E opt (current_state rs) ?b < calculate_exact_merit E opt ws ?b
       \<or> calculate_exact_merit E opt ?stretch ?b < goal_merit w"
  let ?c2 = "calculate_exact_merit E opt ws ?b < calculate_exact_merit E opt ?stretch ?b"
  show thesis
  proof (cases ?c1)
    case True
    have "backtrack E ws rs w = rs\<lparr>current_step := step, members := opt,
                current_state := ?stretch,
                iteration_number := iteration_number rs + max_uphill_steps + 1\<rparr>"
      unfolding backtrack_def f using True by (simp add: Let_def)
    with f True show thesis by (rule stretch)
  next
    case c1: False
    show thesis
    proof (cases ?c2)
      case True
      have "backtrack E ws rs w = rs\<lparr>current_step := step, members := opt,
                current_state := take_scaled_step E opt ws (watchdog_step w) descent_requirement ?b,
                iteration_number := iteration_number rs + max_uphill_steps + 1\<rparr>"
        unfolding backtrack_def f using c1 True by (simp add: Let_def)
      with f c1 True show thesis by (rule from_watchdog)
    next
      case c2: False
      obtain stretch_step opt2 where f2: "find_max_step E opt ?stretch ?b = (stretch_step, opt2)"
        by (cases "find_max_step E opt ?stretch ?b")
      have "backtrack E ws rs w = rs\<lparr>current_step := step, members := opt2,
                 current_state := take_scaled_step E opt2 ?stretch stretch_step descent_requirement ?b,
                 iteration_number := iteration_number rs + max_uphill_steps + 2\<rparr>"
        unfolding backtrack_def f using c1 c2 by (simp add: Let_def f2)
      with f c1 c2 f2 show thesis by (rule from_stretch)
    qed
  qed
qed

lemma backtrack_iteration_number: "iteration_number rs < iteration_number (backtrack E ws rs w)"
  by (cases rule: backtrack_cases[of E rs ws w]) simp_all

lemma watchdog_cycle_iteration_number: "iteration_number rs < iteration_number (watchdog_cycle E rs)"
proof -
  let ?w0 = "\<lparr>found_step = False, watchdog_step = (\<lambda>b. []), goal_merit = Finite 0\<rparr>"
  obtain rs1 w where u: "uphill_loop E (current_state rs) 0 rs ?w0 = (rs1, w)"
    by (cases "uphill_loop E (current_state rs) 0 rs ?w0")
  have it: "if found_step w then iteration_number rs < iteration_number rs1
         else iteration_number rs1 = iteration_number rs"
    by (rule uphill_loop_iteration_number[OF u]) simp
  show ?thesis
  proof (cases "found_step w")
    case True
    with u have "watchdog_cycle E rs = rs1" by (simp add: watchdog_cycle_def Let_def)
    with it True show ?thesis by simp
  next
    case False
    with u have "watchdog_cycle E rs = backtrack E (current_state rs) rs1 w"
      by (simp add: watchdog_cycle_def Let_def)
    with backtrack_iteration_number[of rs1 E "current_state rs" w] it False show ?thesis by simp
  qed
qed

lemma check_convergence_members: "snd (check_convergence E opt state b) = opt"
  by (simp add: check_convergence_def Let_def)

text \<open>
  The inner loop \<^verbatim>\<open>while (!converged && iteration_number < 10000)\<close>;
  \<^verbatim>\<open>output_results\<close> only writes files.
\<close>

function inner_loop :: "environment \<Rightarrow> bool \<Rightarrow> run_state \<Rightarrow> run_state" where
  "inner_loop E converged rs =
     (if \<not> converged \<and> iteration_number rs < 10000
      then (let rs1 = watchdog_cycle E rs
            in case check_convergence E (members rs1) (current_state rs1) (barrier_size rs1) of
                 (c, opt) \<Rightarrow> inner_loop E c (rs1\<lparr>members := opt\<rparr>))
      else rs)"
  by pat_completeness auto
termination
proof (relation "measure (\<lambda>(E, converged, rs). 10000 - iteration_number rs)")
  show "wf (measure (\<lambda>(E, converged, rs). 10000 - iteration_number rs))" by simp
next
  fix E converged rs rs1 x c opt
  assume "\<not> converged \<and> iteration_number rs < 10000" and "rs1 = watchdog_cycle E rs"
  then show "((E, c, rs1\<lparr>members := opt\<rparr>), E, converged, rs)
        \<in> measure (\<lambda>(E, converged, rs). 10000 - iteration_number rs)"
    using watchdog_cycle_iteration_number[of rs E] by auto
qed

lemma inner_loop_iteration_number_le:
  "iteration_number rs \<le> iteration_number (inner_loop E converged rs)"
proof (induction E converged rs rule: inner_loop.induct)
  case (1 E converged rs)
  show ?case
  proof (cases "\<not> converged \<and> iteration_number rs < 10000")
    case False
    then show ?thesis by auto
  next
    case True
    let ?rs1 = "watchdog_cycle E rs"
    obtain c opt where cc: "check_convergence E (members ?rs1) (current_state ?rs1) (barrier_size ?rs1) = (c, opt)"
      by (cases "check_convergence E (members ?rs1) (current_state ?rs1) (barrier_size ?rs1)")
    have "inner_loop E converged rs = inner_loop E c (?rs1\<lparr>members := opt\<rparr>)"
      using True cc by (subst inner_loop.simps) (simp add: Let_def)
    with "1.IH"[OF True refl cc[symmetric]] watchdog_cycle_iteration_number[of rs E]
    show ?thesis by simp
  qed
qed

lemma inner_loop_iteration_number:
  assumes "iteration_number rs < 10000"
  shows "iteration_number rs < iteration_number (inner_loop E False rs)"
proof -
  let ?rs1 = "watchdog_cycle E rs"
  obtain c opt where cc: "check_convergence E (members ?rs1) (current_state ?rs1) (barrier_size ?rs1) = (c, opt)"
    by (cases "check_convergence E (members ?rs1) (current_state ?rs1) (barrier_size ?rs1)")
  have "inner_loop E False rs = inner_loop E c (?rs1\<lparr>members := opt\<rparr>)"
    using assms cc by (subst inner_loop.simps) (simp add: Let_def)
  with inner_loop_iteration_number_le[of "?rs1\<lparr>members := opt\<rparr>" E c]
    watchdog_cycle_iteration_number[of rs E]
  show ?thesis by simp
qed

text \<open>
  The condition of the outer loop,
  \<^verbatim>\<open>(barrier_size > .0005 || !check_convergence(...)) && iteration_number < 10000\<close>,
  evaluated from left to right.
\<close>

definition outer_condition :: "environment \<Rightarrow> run_state \<Rightarrow> bool \<times> run_state" where
  "outer_condition E rs =
     (if 0.0005 < barrier_size rs
      then (iteration_number rs < 10000, rs)
      else (case check_convergence E (members rs) (current_state rs) (barrier_size rs) of
              (c, opt) \<Rightarrow> (\<not> c \<and> iteration_number rs < 10000, rs\<lparr>members := opt\<rparr>)))"

text \<open>
  The body of the outer loop: the inner loop, entered with \<^verbatim>\<open>converged = false\<close>, and the
  update of the barrier size.
\<close>

definition outer_pass :: "environment \<Rightarrow> run_state \<Rightarrow> run_state" where
  "outer_pass E rs =
     (let rs1 = inner_loop E False rs
      in rs1\<lparr>barrier_size := update_barrier_size (barrier_size rs1)\<rparr>)"

lemma outer_condition_state: "snd (outer_condition E rs) = rs"
  using check_convergence_members[of E "members rs" "current_state rs" "barrier_size rs"]
  by (auto simp: outer_condition_def split: prod.splits)

lemma outer_condition_True:
  assumes "fst (outer_condition E rs)"
  shows "iteration_number rs < 10000"
  using assms by (auto simp: outer_condition_def split: if_splits prod.splits)

function outer_loop :: "environment \<Rightarrow> run_state \<Rightarrow> run_state" where
  "outer_loop E rs =
     (case outer_condition E rs of
        (continue, rs0) \<Rightarrow> if continue then outer_loop E (outer_pass E rs0) else rs0)"
  by pat_completeness auto
termination
proof (relation "measure (\<lambda>(E, rs). 10000 - iteration_number rs)")
  show "wf (measure (\<lambda>(E, rs). 10000 - iteration_number rs))" by simp
next
  fix E rs continue rs0
  assume c: "(continue, rs0) = outer_condition E rs" and "continue"
  then have "fst (outer_condition E rs)" by (metis fst_conv)
  then have i: "iteration_number rs < 10000" by (rule outer_condition_True)
  from c outer_condition_state[of E rs] have "rs0 = rs" by (metis snd_conv)
  with i inner_loop_iteration_number[OF i, of E]
  show "((E, outer_pass E rs0), E, rs) \<in> measure (\<lambda>(E, rs). 10000 - iteration_number rs)"
    by (simp add: outer_pass_def Let_def)
qed

text \<open>
  \<^verbatim>\<open>run\<close> after its set-up block: \<open>opt\<close> holds the members as the set-up functions
  leave them (\<^verbatim>\<open>nonlinear_solution\<close> is the initial guess, \<^verbatim>\<open>penalty_multiplier\<close> is 1
  from the constructor). The local variables start as declared; the STL and timer
  output at the end are not modelled.
\<close>

definition initial_run_state :: "optimizer \<Rightarrow> run_state" where
  "initial_run_state opt =
     \<lparr>barrier_size = 25, iteration_number = 0, current_state = nonlinear_solution opt,
      current_step = (\<lambda>b. []), members = opt\<rparr>"

definition run :: "environment \<Rightarrow> optimizer \<Rightarrow> run_state" where
  "run E opt = outer_loop E (initial_run_state opt)"

text \<open>
  One step of the outer loop as a relation between the states at the loop head: the
  condition holds and the body is run.
\<close>

definition outer_step :: "environment \<Rightarrow> run_state \<Rightarrow> run_state \<Rightarrow> bool" where
  "outer_step E rs rs' = (fst (outer_condition E rs) \<and> rs' = outer_pass E rs)"

declare uphill_loop.simps [simp del] inner_loop.simps [simp del] outer_loop.simps [simp del]

subsection \<open>Concrete inputs\<close>

text \<open>
  A mesh of one cell with one face on the loaded boundary (two quadrature points, two
  displacement degrees of freedom), one clamped face and one interior face; an
  environment over it whose residual is the test solution itself; members with the
  penalty multiplier 1 of the constructor.
\<close>

definition example_cells :: "cell list" where
  "example_cells =
     [[\<lparr>at_boundary = True, boundary_id = down_force,
        q_points = [\<lparr>JxW = 1/2, displacement_shape_values = [(0, 1), (0, 0)]\<rparr>,
                    \<lparr>JxW = 1/2, displacement_shape_values = [(0, 1/2), (1, 1/2)]\<rparr>]\<rparr>,
       \<lparr>at_boundary = True, boundary_id = held_still, q_points = []\<rparr>,
       \<lparr>at_boundary = False, boundary_id = 0, q_points = []\<rparr>]]"

definition example_environment :: environment where
  "example_environment =
     \<lparr>active_cells = example_cells, assembly = (\<lambda>x b. (\<lambda>i j. [], x)),
      direct_solver = (\<lambda>m r. r), calculate_test_rhs = (\<lambda>x b. x)\<rparr>"

definition example_state :: block_vector where
  "example_state = (\<lambda>b. [1, 2])"


definition example_optimizer :: optimizer where
  "example_optimizer =
     \<lparr>system_matrix = (\<lambda>i j. []), system_rhs = (\<lambda>b. []), linear_solution = (\<lambda>b. []),
      nonlinear_solution = example_state, penalty_multiplier = Finite 1\<rparr>"

text \<open>A residual of \<open>l\<^sub>1\<close> norm 0.001.\<close>

definition small_residual :: block_vector where
  "small_residual = (\<lambda>b. if b = density then [0.0005, - 0.0005] else [0, 0])"

text \<open>
  A sequence of calls of \<open>find_max_step\<close>, each on the members that the call before it
  has left, for arbitrary states and barrier sizes.
\<close>

fun find_max_step_calls ::
  "environment \<Rightarrow> optimizer \<Rightarrow> (block_vector \<times> real) list \<Rightarrow> optimizer" where
  "find_max_step_calls E opt [] = opt"
| "find_max_step_calls E opt ((state, b) # calls) =
     find_max_step_calls E (snd (find_max_step E opt state b)) calls"

text \<open>
  An environment whose Newton system has \<open>hess_part = 2\<close>, \<open>grad_part = 1\<close> and
  \<open>constraint_norm = \<bar>c\<bar>\<close> for the step \<open>unit_state\<close>.
\<close>

definition unit_state :: block_vector where
  "unit_state = (\<lambda>b. [1])"

definition penalty_environment :: "real \<Rightarrow> environment" where
  "penalty_environment c =
     \<lparr>active_cells = [],
      assembly = (\<lambda>x b. (\<lambda>i j. if i = density \<and> j = density then [[2]] else [[0]],
                          \<lambda>blk. if blk = density then [- 1]
                                else if blk = displacement_multiplier then [c] else [0])),
      direct_solver = (\<lambda>m r. unit_state),
      calculate_test_rhs = (\<lambda>x b. x)\<rparr>"

text \<open>A step along which the merit of \<open>example_state\<close> decreases.\<close>

definition example_descent_step :: block_vector where
  "example_descent_step = (\<lambda>b. [- 1 / 2, - 1])"

text \<open>
  A step is a feasible direction at a state when every point of the segment from the
  state to the state plus the step is strictly feasible.
\<close>

definition feasible_direction :: "block_vector \<Rightarrow> block_vector \<Rightarrow> bool" where
  "feasible_direction state step =
     (\<forall>t. 0 \<le> t \<and> t \<le> 1 \<longrightarrow> strictly_feasible (block_add state (block_scale t step)))"

text \<open>
  An environment whose Newton step is \<open>-2\<close> in every block: along it the slacks and their
  multipliers decrease.
\<close>

definition shrinking_step :: block_vector where
  "shrinking_step = (\<lambda>b. [- 2])"

definition shrinking_environment :: environment where
  "shrinking_environment =
     \<lparr>active_cells = [],
      assembly = (\<lambda>x b. (\<lambda>i j. [[1]], \<lambda>blk. [1])),
      direct_solver = (\<lambda>m r. shrinking_step),
      calculate_test_rhs = (\<lambda>x b. x)\<rparr>"

text \<open>Members whose initial guess is \<open>unit_state\<close>.\<close>

definition unit_optimizer :: optimizer where
  "unit_optimizer = example_optimizer\<lparr>nonlinear_solution := unit_state\<rparr>"

text \<open>
  An environment for a watchdog cycle. Only the first entry \<open>x\<close> of the density block
  moves: every Newton step is \<open>profile_step\<close>, which the step selector accepts at every
  length (the binary search ends at \<open>1 - 1/2\<^sup>5\<^sup>0\<close>). The objective is 0 (no loaded face)
  and the residual has the single non-zero entry \<open>merit_profile x\<close>, so that with the
  penalty multiplier 1 the merit of a state is \<open>merit_profile x\<close>: it decreases slowly
  near 0, is flat at 10, is slightly lower from 8.5 and drops to 0 from 9.3.
\<close>

definition merit_profile :: "real \<Rightarrow> real" where
  "merit_profile x =
     (if x \<le> 0.5 then 10 - x
      else if x < 8.5 then 10
      else if x < 9.3 then 10 - 0.00001
      else 0)"

fun profile_state :: "real \<Rightarrow> block_vector" where
  "profile_state x density = [x]"
| "profile_state x displacement = [0]"
| "profile_state x unfiltered_density = [0]"
| "profile_state x displacement_multiplier = [0]"
| "profile_state x unfiltered_density_multiplier = [0]"
| "profile_state x density_lower_slack = [1]"
| "profile_state x density_lower_slack_multiplier = [1]"
| "profile_state x density_upper_slack = [1]"
| "profile_state x density_upper_slack_multiplier = [1]"

definition profile_step :: block_vector where
  "profile_step = (\<lambda>b. if b = density then [1] else [0])"

definition profile_environment :: environment where
  "profile_environment =
     \<lparr>active_cells = [],
      assembly = (\<lambda>x b. (\<lambda>i j. [], \<lambda>blk. if blk = displacement_multiplier then [1] else [0])),
      direct_solver = (\<lambda>m r. profile_step),
      calculate_test_rhs =
        (\<lambda>x b blk. if blk = displacement_multiplier then map merit_profile (x density) else [0])\<rparr>"

definition profile_step_size :: real where
  "profile_step_size = 1 - 1 / 2 ^ 50"

definition profile_run_state :: "real \<Rightarrow> run_state" where
  "profile_run_state x =
     \<lparr>barrier_size = 25, iteration_number = 0, current_state = profile_state x,
      current_step = (\<lambda>b. []), members = unit_optimizer\<rparr>"

section \<open>Properties\<close>

subsection \<open>The step selector\<close>

lemma fraction_to_boundary_bounds:
  "0.8 \<le> fraction_to_boundary b \<and> fraction_to_boundary b \<le> 0.99999"
  by (simp add: fraction_to_boundary_def min_fraction_to_boundary_def max_fraction_to_boundary_def)

lemma state_test_zero_non_negative:
  assumes "is_positive (state b)" and "0 \<le> ftb"
  shows "is_non_negative (state_test ftb state step 0 b)"
proof -
  have "\<And>ys. list_all (\<lambda>x. 0 < x) xs \<Longrightarrow>
          list_all (\<lambda>x. 0 \<le> x) (map2 (\<lambda>x y. x + y) (map (\<lambda>x. ftb * x) xs) (map (\<lambda>x. 0 * x) ys))"
    for xs :: "real list"
  proof (induction xs)
    case Nil
    then show ?case by simp
  next
    case (Cons x xs)
    show ?case
    proof (cases ys)
      case Nil
      then show ?thesis by simp
    next
      case (Cons y ys')
      with Cons.prems Cons.IH[of ys'] assms(2) show ?thesis by simp
    qed
  qed
  with assms(1) show ?thesis
    by (simp add: state_test_def block_add_def block_scale_def vec_add_def vec_scale_def
        is_non_negative_def is_positive_def)
qed

lemma accept_zero:
  assumes "strictly_feasible state" and "0 \<le> ftb"
  shows "accept_s ftb state step 0" and "accept_z ftb state step 0"
  using assms
  by (simp_all add: accept_s_def accept_z_def strictly_feasible_def state_test_zero_non_negative)

text \<open>
  The loop invariant of the binary search: both lower bounds have passed the
  non-negativity test (or are the initial 0, which passes it for a feasible state), and
  \<open>0 \<le> low \<le> high \<le> 1\<close>.
\<close>

lemma search_pass_invariant:
  assumes "search_pass ftb state step (sl, sh, zl, zh) = (sl', sh', zl', zh')"
    and "accept_s ftb state step sl" and "accept_z ftb state step zl"
    and "0 \<le> sl" "sl \<le> sh" "sh \<le> 1" "0 \<le> zl" "zl \<le> zh" "zh \<le> 1"
  shows "accept_s ftb state step sl' \<and> accept_z ftb state step zl' \<and>
         0 \<le> sl' \<and> sl' \<le> sh' \<and> sh' \<le> 1 \<and> 0 \<le> zl' \<and> zl' \<le> zh' \<and> zh' \<le> 1"
  using assms by (auto simp: Let_def split: if_splits)

lemma search_loop_invariant:
  assumes "accept_s ftb state step 0" and "accept_z ftb state step 0"
  shows "case (search_pass ftb state step ^^ n) (0, 1, 0, 1) of (sl, sh, zl, zh) \<Rightarrow>
           accept_s ftb state step sl \<and> accept_z ftb state step zl \<and>
           0 \<le> sl \<and> sl \<le> sh \<and> sh \<le> 1 \<and> 0 \<le> zl \<and> zl \<le> zh \<and> zh \<le> 1"
proof (induction n)
  case 0
  then show ?case using assms by simp
next
  case (Suc n)
  obtain sl sh zl zh
    where prev: "(search_pass ftb state step ^^ n) (0, 1, 0, 1) = (sl, sh, zl, zh)"
    by (metis prod_cases4)
  obtain sl' sh' zl' zh'
    where nxt: "search_pass ftb state step (sl, sh, zl, zh) = (sl', sh', zl', zh')"
    by (metis prod_cases4)
  from Suc prev have "accept_s ftb state step sl" "accept_z ftb state step zl"
    "0 \<le> sl" "sl \<le> sh" "sh \<le> 1" "0 \<le> zl" "zl \<le> zh" "zh \<le> 1" by simp_all
  from search_pass_invariant[OF nxt this] show ?case
    by (simp add: prev nxt del: search_pass.simps)
qed

lemma calculate_max_step_size_accepted:
  assumes "strictly_feasible state"
  shows "\<exists>s z. calculate_max_step_size state step barrier = (s, z) \<and>
           0 \<le> s \<and> s \<le> 1 \<and> 0 \<le> z \<and> z \<le> 1 \<and>
           accept_s (fraction_to_boundary barrier) state step s \<and>
           accept_z (fraction_to_boundary barrier) state step z"
proof -
  let ?ftb = "fraction_to_boundary barrier"
  have ftb: "0 \<le> ?ftb" using fraction_to_boundary_bounds[of barrier] by simp
  obtain sl sh zl zh
    where fin: "(search_pass ?ftb state step ^^ 50) (0, 1, 0, 1) = (sl, sh, zl, zh)"
    by (metis prod_cases4)
  have "case (search_pass ?ftb state step ^^ 50) (0, 1, 0, 1) of (sl, sh, zl, zh) \<Rightarrow>
           accept_s ?ftb state step sl \<and> accept_z ?ftb state step zl \<and>
           0 \<le> sl \<and> sl \<le> sh \<and> sh \<le> 1 \<and> 0 \<le> zl \<and> zl \<le> zh \<and> zh \<le> 1"
    by (rule search_loop_invariant) (rule accept_zero[OF assms ftb])+
  with fin have inv: "accept_s ?ftb state step sl" "accept_z ?ftb state step zl"
    "0 \<le> sl" "sl \<le> sh" "sh \<le> 1" "0 \<le> zl" "zl \<le> zh" "zh \<le> 1" by simp_all
  have res: "calculate_max_step_size state step barrier = (sl, zl)"
    by (simp add: calculate_max_step_size_def fin)
  from inv have "sl \<le> 1" "zl \<le> 1" by linarith+
  with inv res show ?thesis by simp
qed

text \<open>
  Claim C2. For every state whose two slack blocks and two slack-multiplier blocks are
  strictly positive, and for every step and barrier size, \<open>calculate_max_step_size\<close>
  returns a pair \<open>(s, z)\<close> with \<open>0 \<le> s \<le> 1\<close> and \<open>0 \<le> z \<le> 1\<close> such that the two slack
  blocks of \<open>\<tau> * state + s * step\<close> and the two multiplier blocks of
  \<open>\<tau> * state + z * step\<close> are component-wise non-negative, where \<open>\<tau>\<close> is the
  fraction-to-boundary value. The function is total: it has no failure branch.
\<close>

theorem calculate_max_step_size_feasible:
  assumes "strictly_feasible state"
  shows "\<exists>s z. calculate_max_step_size state step barrier = (s, z) \<and>
           0 \<le> s \<and> s \<le> 1 \<and> 0 \<le> z \<and> z \<le> 1 \<and>
           is_non_negative (block_add (block_scale (fraction_to_boundary barrier) state)
              (block_scale s step) density_lower_slack) \<and>
           is_non_negative (block_add (block_scale (fraction_to_boundary barrier) state)
              (block_scale s step) density_upper_slack) \<and>
           is_non_negative (block_add (block_scale (fraction_to_boundary barrier) state)
              (block_scale z step) density_lower_slack_multiplier) \<and>
           is_non_negative (block_add (block_scale (fraction_to_boundary barrier) state)
              (block_scale z step) density_upper_slack_multiplier)"
  using calculate_max_step_size_accepted[OF assms, of step barrier]
  by (simp add: accept_s_def accept_z_def state_test_def)

theorem calculate_max_step_size_feasible_witness:
  "strictly_feasible (\<lambda>b. [1]) \<and>
   (\<exists>s z. calculate_max_step_size (\<lambda>b. [1]) (\<lambda>b. [- 2]) 25 = (s, z) \<and>
      0 \<le> s \<and> s \<le> 1 \<and> 0 \<le> z \<and> z \<le> 1 \<and>
      is_non_negative (block_add (block_scale (fraction_to_boundary 25) (\<lambda>b. [1]))
         (block_scale s (\<lambda>b. [- 2])) density_lower_slack) \<and>
      is_non_negative (block_add (block_scale (fraction_to_boundary 25) (\<lambda>b. [1]))
         (block_scale s (\<lambda>b. [- 2])) density_upper_slack) \<and>
      is_non_negative (block_add (block_scale (fraction_to_boundary 25) (\<lambda>b. [1]))
         (block_scale z (\<lambda>b. [- 2])) density_lower_slack_multiplier) \<and>
      is_non_negative (block_add (block_scale (fraction_to_boundary 25) (\<lambda>b. [1]))
         (block_scale z (\<lambda>b. [- 2])) density_upper_slack_multiplier))"
proof -
  have h: "strictly_feasible (\<lambda>b. [1])"
    by (simp add: strictly_feasible_def is_positive_def)
  from calculate_max_step_size_feasible[OF h, of "\<lambda>b. [- 2]" 25] h show ?thesis
    by blast
qed

text \<open>
  Claim C6. The fraction-to-boundary value used by \<open>calculate_max_step_size\<close> is
  \<open>max 0.8 (min (1 - barrier) 0.99999)\<close>; it is 0.8 at barrier size 25, 0.9 at
  barrier size 0.1 and 0.9995 at barrier size 0.0005.
\<close>

theorem fraction_to_boundary_clamp:
  "fraction_to_boundary barrier = max 0.8 (min (1 - barrier) 0.99999) \<and>
   fraction_to_boundary 25 = 0.8 \<and>
   fraction_to_boundary 0.1 = 0.9 \<and>
   fraction_to_boundary 0.0005 = 0.9995"
  by (simp add: fraction_to_boundary_def min_fraction_to_boundary_def max_fraction_to_boundary_def)

subsection \<open>The merit function\<close>







lemma l1_norm_nonneg: "0 \<le> l1_norm v"
  unfolding l1_norm_def by (rule sum_list_nonneg) auto

text \<open>
  With the penalty multiplier \<open>+\<infinity>\<close> that a division by a zero constraint norm leaves,
  the merit is \<open>+\<infinity>\<close>, or not a number when one of the four norms is 0.
\<close>

lemma calculate_exact_merit_infinite_penalty:
  assumes "penalty_multiplier opt = PlusInfinity"
  shows "calculate_exact_merit E opt test_solution barrier =
     (if l1_norm (calculate_test_rhs E test_solution barrier displacement_multiplier) = 0
       \<or> l1_norm (calculate_test_rhs E test_solution barrier unfiltered_density_multiplier) = 0
       \<or> l1_norm (calculate_test_rhs E test_solution barrier density_lower_slack_multiplier) = 0
       \<or> l1_norm (calculate_test_rhs E test_solution barrier density_upper_slack_multiplier) = 0
      then NotANumber else PlusInfinity)"
  using l1_norm_nonneg[of "calculate_test_rhs E test_solution barrier displacement_multiplier"]
    l1_norm_nonneg[of "calculate_test_rhs E test_solution barrier unfiltered_density_multiplier"]
    l1_norm_nonneg[of "calculate_test_rhs E test_solution barrier density_lower_slack_multiplier"]
    l1_norm_nonneg[of "calculate_test_rhs E test_solution barrier density_upper_slack_multiplier"]
  by (simp add: calculate_exact_merit_def Let_def assms)



subsection \<open>The convergence test\<close>

text \<open>
  Claim C7. \<open>check_convergence state barrier_size\<close> returns true if and only if the
  \<open>l\<^sub>1\<close> norm of the residual \<open>calculate_test_rhs state barrier_size\<close> is strictly less
  than \<open>0.01 * barrier_size\<close>, and it leaves the members of the optimizer as they were;
  for a residual of norm 0.001 it returns true at barrier size 0.2 and false at barrier
  size 0.05.
\<close>

theorem check_convergence_iff:
  "check_convergence E opt state barrier
     = (block_l1_norm (calculate_test_rhs E state barrier) < 0.01 * barrier, opt)
   \<and> (block_l1_norm (calculate_test_rhs E state 0.2) = 0.001 \<longrightarrow>
        check_convergence E opt state 0.2 = (True, opt))
   \<and> (block_l1_norm (calculate_test_rhs E state 0.05) = 0.001 \<longrightarrow>
        check_convergence E opt state 0.05 = (False, opt))"
  by (simp add: check_convergence_def convergence_condition_def Let_def)

theorem check_convergence_iff_witness:
  "block_l1_norm (calculate_test_rhs example_environment small_residual 0.2) = 0.001
   \<and> check_convergence example_environment example_optimizer small_residual 0.2
       = (True, example_optimizer)
   \<and> block_l1_norm (calculate_test_rhs example_environment small_residual 0.05) = 0.001
   \<and> check_convergence example_environment example_optimizer small_residual 0.05
       = (False, example_optimizer)"
proof -
  have n: "block_l1_norm (calculate_test_rhs example_environment small_residual b) = 0.001" for b
    by (simp add: example_environment_def small_residual_def block_l1_norm_def all_blocks_def
        l1_norm_def)
  from check_convergence_iff[of example_environment example_optimizer small_residual 1] n
  show ?thesis by simp
qed

subsection \<open>The penalty multiplier\<close>

text \<open>The order of the doubles that are not NaN.\<close>

lemma double_le_refl: "x \<noteq> NotANumber \<Longrightarrow> x \<le> x" for x :: double
  by (cases x) simp_all

lemma double_less_imp_le: "x < y \<Longrightarrow> x \<le> y" for x y :: double
  by (cases x; cases y) simp_all

lemma double_le_trans: "x \<le> y \<Longrightarrow> y \<le> z \<Longrightarrow> x \<le> z" for x y z :: double
  by (cases x; cases y; cases z) simp_all

lemma double_less_not_nan: "x < y \<Longrightarrow> y \<noteq> NotANumber" for x y :: double
  by (cases x; cases y) simp_all

lemma newton_system_penalty_multiplier [simp]:
  "penalty_multiplier (newton_system E opt state b) = penalty_multiplier opt"
  by (simp add: newton_system_def solve_def assemble_system_def split: prod.splits)

lemma find_max_step_members:
  "snd (find_max_step E opt state b)
     = (newton_system E opt state b)\<lparr>penalty_multiplier := new_penalty_multiplier E opt state b\<rparr>"
  by (simp add: find_max_step_def Let_def split: prod.splits)

lemma find_max_step_step:
  "fst (find_max_step E opt state b)
     = max_step_block (fst (calculate_max_step_size state (linear_solution (newton_system E opt state b)) b))
         (snd (calculate_max_step_size state (linear_solution (newton_system E opt state b)) b))
         (linear_solution (newton_system E opt state b))"
  by (simp add: find_max_step_def Let_def split: prod.splits)

lemma update_penalty_multiplier_ge:
  assumes "p \<noteq> NotANumber"
  shows "p \<le> update_penalty_multiplier p t" and "update_penalty_multiplier p t \<noteq> NotANumber"
  using assms double_le_refl[of p] double_less_imp_le[of p t] double_less_not_nan[of p t]
  by (auto simp: update_penalty_multiplier_def)

lemma find_max_step_ratchet:
  assumes "penalty_multiplier opt \<noteq> NotANumber"
  shows "penalty_multiplier opt \<le> penalty_multiplier (snd (find_max_step E opt state b))"
    and "penalty_multiplier (snd (find_max_step E opt state b)) \<noteq> NotANumber"
  using update_penalty_multiplier_ge[OF assms]
  by (simp_all add: find_max_step_members new_penalty_multiplier_def Let_def)

lemma find_max_step_calls_ratchet:
  assumes "penalty_multiplier opt \<noteq> NotANumber"
  shows "penalty_multiplier opt \<le> penalty_multiplier (find_max_step_calls E opt calls)"
  using assms
proof (induction calls arbitrary: opt)
  case Nil
  then show ?case by (simp add: double_le_refl)
next
  case (Cons call calls)
  obtain state b where c: "call = (state, b)" by (cases call)
  from find_max_step_ratchet[OF Cons.prems, of E state b]
    Cons.IH[of "snd (find_max_step E opt state b)"] c
  show ?case by (auto intro: double_le_trans)
qed

text \<open>
  Claim C4. The penalty update of \<open>find_max_step\<close> computes
  \<open>trial = (grad_part + 0.5 * hess_part) / (0.05 * constraint_norm)\<close> when
  \<open>hess_part > 0\<close> and \<open>trial = grad_part / (0.05 * constraint_norm)\<close> otherwise, and
  replaces \<open>penalty_multiplier\<close> by \<open>trial\<close> only when \<open>trial > penalty_multiplier\<close>
  (here for \<open>constraint_norm \<noteq> 0\<close> and a finite multiplier \<open>p\<close>, where the trial and the
  new multiplier are finite); over every sequence of calls \<open>penalty_multiplier\<close> never
  decreases.
\<close>

theorem penalty_multiplier_ratchet:
  assumes "opt1 = newton_system E opt state barrier"
    and "step = linear_solution opt1"
    and "h = hess_part (system_matrix opt1) step"
    and "g = grad_part (system_rhs opt1) step"
    and "c = constraint_norm (system_rhs opt1)"
    and "trial = (if 0 < h then (g + 0.5 * h) / (0.05 * c) else g / (0.05 * c))"
    and "c \<noteq> 0"
    and "penalty_multiplier opt = Finite p"
  shows "test_penalty_multiplier opt1 step = Finite trial
     \<and> penalty_multiplier (snd (find_max_step E opt state barrier))
         = Finite (if p < trial then trial else p)
     \<and> penalty_multiplier opt \<le> penalty_multiplier (snd (find_max_step E opt state barrier))
     \<and> (\<forall>calls. penalty_multiplier opt \<le> penalty_multiplier (find_max_step_calls E opt calls))"
proof (intro conjI allI)
  have nan: "penalty_multiplier opt \<noteq> NotANumber"
    using assms(8) by simp
  show t: "test_penalty_multiplier opt1 step = Finite trial"
    using assms by (simp add: test_penalty_multiplier_def)
  show "penalty_multiplier (snd (find_max_step E opt state barrier))
         = Finite (if p < trial then trial else p)"
    using t assms(1,2,8)
    by (simp add: find_max_step_members new_penalty_multiplier_def Let_def
        update_penalty_multiplier_def)
  show "penalty_multiplier opt \<le> penalty_multiplier (snd (find_max_step E opt state barrier))"
    by (rule find_max_step_ratchet[OF nan])
  show "penalty_multiplier opt \<le> penalty_multiplier (find_max_step_calls E opt calls)" for calls
    by (rule find_max_step_calls_ratchet[OF nan])
qed

lemma penalty_environment_newton_system:
  "linear_solution (newton_system (penalty_environment c) opt state b) = unit_state"
  "hess_part (system_matrix (newton_system (penalty_environment c) opt state b)) unit_state = 2"
  "grad_part (system_rhs (newton_system (penalty_environment c) opt state b)) unit_state = 1"
  "constraint_norm (system_rhs (newton_system (penalty_environment c) opt state b)) = \<bar>c\<bar>"
  by (simp_all add: newton_system_def solve_def assemble_system_def penalty_environment_def
      unit_state_def hess_part_def grad_part_def constraint_norm_def decision_variables_def
      equality_constraints_def vmult_def dot_def linfty_norm_def)

theorem penalty_multiplier_ratchet_witness:
  "constraint_norm (system_rhs (newton_system (penalty_environment 4) example_optimizer unit_state 25)) \<noteq> 0
   \<and> penalty_multiplier example_optimizer = Finite 1
   \<and> test_penalty_multiplier (newton_system (penalty_environment 4) example_optimizer unit_state 25)
        unit_state = Finite 10
   \<and> penalty_multiplier (snd (find_max_step (penalty_environment 4) example_optimizer unit_state 25))
        = Finite 10
   \<and> penalty_multiplier example_optimizer
        \<le> penalty_multiplier (snd (find_max_step (penalty_environment 4) example_optimizer unit_state 25))
   \<and> penalty_multiplier example_optimizer
        \<le> penalty_multiplier (find_max_step_calls (penalty_environment 4) example_optimizer
             [(unit_state, 25), (unit_state, 1)])"
proof -
  let ?E = "penalty_environment 4"
  let ?opt1 = "newton_system ?E example_optimizer unit_state 25"
  have p: "penalty_multiplier example_optimizer = Finite 1" by (simp add: example_optimizer_def)
  have c: "constraint_norm (system_rhs ?opt1) \<noteq> 0"
    by (simp add: penalty_environment_newton_system)
  have t: "(if 0 < hess_part (system_matrix ?opt1) (linear_solution ?opt1)
         then (grad_part (system_rhs ?opt1) (linear_solution ?opt1)
                + 0.5 * hess_part (system_matrix ?opt1) (linear_solution ?opt1))
              / (0.05 * constraint_norm (system_rhs ?opt1))
         else grad_part (system_rhs ?opt1) (linear_solution ?opt1)
              / (0.05 * constraint_norm (system_rhs ?opt1))) = 10"
    by (simp add: penalty_environment_newton_system)
  note first = penalty_multiplier_ratchet[OF refl refl refl refl refl refl c p, unfolded t]
  from first have calls: "penalty_multiplier example_optimizer
        \<le> penalty_multiplier (find_max_step_calls ?E example_optimizer
             [(unit_state, 25), (unit_state, 1)])"
    by blast
  from first calls c p show ?thesis
    by (simp add: penalty_environment_newton_system del: find_max_step_calls.simps)
qed

text \<open>
  Claim C9, as the program has it. \<open>find_max_step\<close> has no test for
  \<open>constraint_norm = 0\<close>: the trial quotient is formed with the divisor 0, which raises
  nothing, and the call returns its step. When the numerator
  (\<open>grad_part + 0.5 * hess_part\<close> if \<open>hess_part > 0\<close>, else \<open>grad_part\<close>) is not positive,
  the quotient is \<open>-\<infinity>\<close> or NaN, the comparison fails and \<open>penalty_multiplier\<close> is left
  unchanged; when the numerator is positive, the quotient is \<open>+\<infinity>\<close> and
  \<open>penalty_multiplier\<close> is set to \<open>+\<infinity>\<close>.
\<close>

theorem penalty_update_at_zero_constraint_norm:
  assumes "opt1 = newton_system E opt state barrier"
    and "step = linear_solution opt1"
    and "h = hess_part (system_matrix opt1) step"
    and "g = grad_part (system_rhs opt1) step"
    and "constraint_norm (system_rhs opt1) = 0"
    and "penalty_multiplier opt \<noteq> NotANumber"
  shows "new_penalty_multiplier E opt state barrier
           = (if 0 < (if 0 < h then g + 0.5 * h else g)
              then PlusInfinity
              else penalty_multiplier opt)
       \<and> penalty_multiplier (snd (find_max_step E opt state barrier))
           = new_penalty_multiplier E opt state barrier"
proof
  show "new_penalty_multiplier E opt state barrier
           = (if 0 < (if 0 < h then g + 0.5 * h else g)
              then PlusInfinity
              else penalty_multiplier opt)"
    using assms
    by (cases "penalty_multiplier opt")
       (auto simp: new_penalty_multiplier_def Let_def update_penalty_multiplier_def
          test_penalty_multiplier_def)
  show "penalty_multiplier (snd (find_max_step E opt state barrier))
           = new_penalty_multiplier E opt state barrier"
    by (simp add: find_max_step_members)
qed

theorem penalty_update_at_zero_constraint_norm_witness:
  "constraint_norm (system_rhs (newton_system (penalty_environment 0) example_optimizer unit_state 25)) = 0
   \<and> penalty_multiplier example_optimizer \<noteq> NotANumber
   \<and> new_penalty_multiplier (penalty_environment 0) example_optimizer unit_state 25 = PlusInfinity
   \<and> penalty_multiplier (snd (find_max_step (penalty_environment 0) example_optimizer unit_state 25))
       = PlusInfinity"
proof -
  let ?E = "penalty_environment 0"
  let ?opt1 = "newton_system ?E example_optimizer unit_state 25"
  have c: "constraint_norm (system_rhs ?opt1) = 0"
    by (simp add: penalty_environment_newton_system)
  have p: "penalty_multiplier example_optimizer \<noteq> NotANumber"
    by (simp add: example_optimizer_def)
  from penalty_update_at_zero_constraint_norm[OF refl refl refl refl c p] c p
  show ?thesis by (simp add: penalty_environment_newton_system)
qed

text \<open>
  The claim as it was stated (the update is skipped and \<open>penalty_multiplier\<close> is left
  unchanged whenever \<open>constraint_norm = 0\<close>) fails: here \<open>constraint_norm = 0\<close>,
  \<open>hess_part = 2\<close>, \<open>grad_part = 1\<close>, and the multiplier goes from 1 to \<open>+\<infinity>\<close>.
\<close>

theorem penalty_update_not_skipped_counterexample:
  "constraint_norm (system_rhs (newton_system (penalty_environment 0) example_optimizer unit_state 25)) = 0
   \<and> penalty_multiplier example_optimizer = Finite 1
   \<and> penalty_multiplier (snd (find_max_step (penalty_environment 0) example_optimizer unit_state 25))
       \<noteq> penalty_multiplier example_optimizer
   \<and> penalty_multiplier (snd (find_max_step (penalty_environment 0) example_optimizer unit_state 25))
       = PlusInfinity"
proof -
  let ?E = "penalty_environment 0"
  let ?opt1 = "newton_system ?E example_optimizer unit_state 25"
  have c: "constraint_norm (system_rhs ?opt1) = 0"
    by (simp add: penalty_environment_newton_system)
  have p: "penalty_multiplier example_optimizer = Finite 1"
    by (simp add: example_optimizer_def)
  have n: "new_penalty_multiplier ?E example_optimizer unit_state 25 = PlusInfinity"
    by (simp add: new_penalty_multiplier_def Let_def update_penalty_multiplier_def
        test_penalty_multiplier_def penalty_environment_newton_system p)
  from c n p show ?thesis by (simp add: find_max_step_members)
qed

subsection \<open>The barrier parameter\<close>

lemma update_barrier_size_max_min:
  "update_barrier_size b = max (min (b * 0.8) (b powr 1.2)) min_barrier_size"
  by (simp add: update_barrier_size_def barrier_size_multiplier_def barrier_size_exponent_def
      max_def min_def)

lemma update_barrier_size_lower: "min_barrier_size \<le> update_barrier_size b"
  by (simp add: update_barrier_size_max_min)

lemma update_barrier_size_upper:
  assumes "min_barrier_size \<le> b"
  shows "update_barrier_size b \<le> b"
proof -
  from assms have "0 \<le> b" by (simp add: min_barrier_size_def)
  then have "min (b * 0.8) (b powr 1.2) \<le> b" by (simp add: min_def)
  with assms show ?thesis by (simp add: update_barrier_size_max_min)
qed

lemma update_barrier_size_initial: "update_barrier_size 25 = 20"
proof -
  have "(25::real) powr 1 \<le> 25 powr 1.2" by (rule powr_mono) simp_all
  then have "(20::real) < 25 powr 1.2" by simp
  then show ?thesis
    by (simp add: update_barrier_size_def barrier_size_multiplier_def barrier_size_exponent_def
        min_barrier_size_def)
qed

text \<open>Nothing but the last statement of the outer loop assigns to \<^verbatim>\<open>barrier_size\<close>.\<close>

lemma uphill_loop_barrier_size:
  "barrier_size (fst (uphill_loop E ws k rs w)) = barrier_size rs"
proof (induction E ws k rs w rule: uphill_loop.induct)
  case (1 E ws k rs w)
  show ?case
  proof (cases "k < max_uphill_steps")
    case False
    then show ?thesis by (simp add: uphill_loop.simps[of E ws k rs w])
  next
    case True
    obtain step opt
      where f: "find_max_step E (members rs) (current_state rs) (barrier_size rs) = (step, opt)"
      by (cases "find_max_step E (members rs) (current_state rs) (barrier_size rs)")
    show ?thesis
      using True f "1.IH"[OF True f[symmetric] refl refl refl refl refl refl refl]
      by (auto simp: uphill_loop.simps[of E ws k rs w] Let_def)
  qed
qed

lemma backtrack_barrier_size: "barrier_size (backtrack E ws rs w) = barrier_size rs"
  by (cases rule: backtrack_cases[of E rs ws w]) simp_all

lemma watchdog_cycle_barrier_size: "barrier_size (watchdog_cycle E rs) = barrier_size rs"
proof -
  let ?w0 = "\<lparr>found_step = False, watchdog_step = (\<lambda>b. []), goal_merit = Finite 0\<rparr>"
  obtain rs1 w where u: "uphill_loop E (current_state rs) 0 rs ?w0 = (rs1, w)"
    by (cases "uphill_loop E (current_state rs) 0 rs ?w0")
  from uphill_loop_barrier_size[of E "current_state rs" 0 rs ?w0] u
  have b: "barrier_size rs1 = barrier_size rs" by simp
  show ?thesis
    using u b backtrack_barrier_size[of E "current_state rs" rs1 w]
    by (simp add: watchdog_cycle_def Let_def)
qed

lemma inner_loop_barrier_size: "barrier_size (inner_loop E converged rs) = barrier_size rs"
proof (induction E converged rs rule: inner_loop.induct)
  case (1 E converged rs)
  show ?case
  proof (cases "\<not> converged \<and> iteration_number rs < 10000")
    case False
    then show ?thesis by (auto simp: inner_loop.simps[of E converged rs])
  next
    case True
    let ?rs1 = "watchdog_cycle E rs"
    obtain c opt where cc: "check_convergence E (members ?rs1) (current_state ?rs1) (barrier_size ?rs1) = (c, opt)"
      by (cases "check_convergence E (members ?rs1) (current_state ?rs1) (barrier_size ?rs1)")
    have "inner_loop E converged rs = inner_loop E c (?rs1\<lparr>members := opt\<rparr>)"
      using True cc by (subst inner_loop.simps) (simp add: Let_def)
    with "1.IH"[OF True refl cc[symmetric]] watchdog_cycle_barrier_size[of E rs]
    show ?thesis by simp
  qed
qed

lemma outer_pass_barrier_size:
  "barrier_size (outer_pass E rs) = update_barrier_size (barrier_size rs)"
  by (simp add: outer_pass_def Let_def inner_loop_barrier_size)

text \<open>The states at the head of the outer loop.\<close>

lemma outer_loop_unfold:
  "outer_loop E rs = (if fst (outer_condition E rs) then outer_loop E (outer_pass E rs) else rs)"
  using outer_condition_state[of E rs]
  by (subst outer_loop.simps) (auto split: prod.splits)

lemma outer_loop_reachable:
  "rtranclp (outer_step E) rs (outer_loop E rs) \<and> \<not> fst (outer_condition E (outer_loop E rs))"
proof (induction E rs rule: outer_loop.induct)
  case (1 E rs)
  show ?case
  proof (cases "fst (outer_condition E rs)")
    case False
    then show ?thesis by (simp add: outer_loop_unfold[of E rs])
  next
    case True
    have oc: "(True, rs) = outer_condition E rs"
      using True outer_condition_state[of E rs] by (cases "outer_condition E rs") simp
    have s: "outer_step E rs (outer_pass E rs)"
      using True by (simp add: outer_step_def)
    from "1.IH"[OF oc] True s show ?thesis
      by (auto simp: outer_loop_unfold[of E rs] intro: converse_rtranclp_into_rtranclp)
  qed
qed

lemma outer_loop_barrier_size:
  "\<exists>n. barrier_size (outer_loop E rs) = (update_barrier_size ^^ n) (barrier_size rs)"
proof (induction E rs rule: outer_loop.induct)
  case (1 E rs)
  show ?case
  proof (cases "fst (outer_condition E rs)")
    case False
    then have "barrier_size (outer_loop E rs) = (update_barrier_size ^^ 0) (barrier_size rs)"
      by (simp add: outer_loop_unfold[of E rs])
    then show ?thesis by blast
  next
    case True
    have oc: "(True, rs) = outer_condition E rs"
      using True outer_condition_state[of E rs] by (cases "outer_condition E rs") simp
    from "1.IH"[OF oc] obtain n
      where "barrier_size (outer_loop E (outer_pass E rs))
          = (update_barrier_size ^^ n) (barrier_size (outer_pass E rs))"
      by auto
    with True have "barrier_size (outer_loop E rs) = (update_barrier_size ^^ Suc n) (barrier_size rs)"
      by (simp add: outer_loop_unfold[of E rs] outer_pass_barrier_size funpow_swap1)
    then show ?thesis by blast
  qed
qed

lemma outer_step_barrier_size:
  assumes "rtranclp (outer_step E) rs rs'" and "min_barrier_size \<le> barrier_size rs"
  shows "min_barrier_size \<le> barrier_size rs' \<and> barrier_size rs' \<le> barrier_size rs"
  using assms
proof (induction rule: rtranclp_induct)
  case base
  then show ?case by simp
next
  case (step y z)
  from step.hyps(2) have "barrier_size z = update_barrier_size (barrier_size y)"
    by (simp add: outer_step_def outer_pass_barrier_size)
  with step.IH[OF step.prems] update_barrier_size_lower[of "barrier_size y"]
    update_barrier_size_upper[of "barrier_size y"]
  show ?case by simp
qed

text \<open>The first pass of the outer loop is always made.\<close>

lemma initial_outer_condition: "fst (outer_condition E (initial_run_state opt))"
  by (simp add: outer_condition_def initial_run_state_def)

lemma run_first_pass: "run E opt = outer_loop E (outer_pass E (initial_run_state opt))"
  unfolding run_def
  by (subst outer_loop_unfold) (simp add: initial_outer_condition)

text \<open>
  Claim C5. At the end of each pass of the outer loop of \<open>run\<close> (after the inner loop
  has converged or has reached the iteration limit) the barrier parameter becomes
  \<open>max (min (barrier_size * 0.8) (barrier_size powr 1.2)) min_barrier_size\<close> with
  \<open>min_barrier_size = 0.0005\<close>, and nothing else in the pass changes it. The barrier
  parameter starts at 25 and the first pass is always made; \<open>run\<close> makes passes until
  the loop condition fails. Along the states at the head of the outer loop, from the
  first one to the state that \<open>run\<close> ends with, the barrier parameter never increases
  and never goes below \<open>min_barrier_size\<close>; at the end of \<open>run\<close> it is an iterate
  of the update from 25 with at least one update applied, hence at most 20.
\<close>

theorem barrier_size_schedule:
  "update_barrier_size barrier = max (min (barrier * 0.8) (barrier powr 1.2)) min_barrier_size
   \<and> min_barrier_size = 0.0005
   \<and> barrier_size (inner_loop E converged rs) = barrier_size rs
   \<and> barrier_size (outer_pass E rs) = update_barrier_size (barrier_size rs)
   \<and> barrier_size (initial_run_state opt) = 25
   \<and> outer_step E (initial_run_state opt) (outer_pass E (initial_run_state opt))
   \<and> rtranclp (outer_step E) (outer_pass E (initial_run_state opt)) (run E opt)
   \<and> \<not> fst (outer_condition E (run E opt))
   \<and> (\<forall>earlier later.
         rtranclp (outer_step E) (initial_run_state opt) earlier
         \<and> rtranclp (outer_step E) earlier later \<longrightarrow>
           min_barrier_size \<le> barrier_size later
           \<and> barrier_size later \<le> barrier_size earlier
           \<and> barrier_size earlier \<le> 25)
   \<and> (\<exists>k. 0 < k \<and> barrier_size (run E opt) = (update_barrier_size ^^ k) 25)
   \<and> min_barrier_size \<le> barrier_size (run E opt)
   \<and> barrier_size (run E opt) \<le> 20"
proof -
  let ?init = "initial_run_state opt"
  have i: "barrier_size ?init = 25" by (simp add: initial_run_state_def)
  have m: "min_barrier_size \<le> barrier_size ?init" by (simp add: i min_barrier_size_def)
  have first: "outer_step E ?init (outer_pass E ?init)"
    by (simp add: outer_step_def initial_outer_condition)
  have rest: "rtranclp (outer_step E) (outer_pass E ?init) (run E opt)"
    and stop: "\<not> fst (outer_condition E (run E opt))"
    using outer_loop_reachable[of E "outer_pass E ?init"] by (simp_all add: run_first_pass)
  have mono: "min_barrier_size \<le> barrier_size later
           \<and> barrier_size later \<le> barrier_size earlier
           \<and> barrier_size earlier \<le> 25"
    if "rtranclp (outer_step E) ?init earlier \<and> rtranclp (outer_step E) earlier later"
    for earlier later
  proof -
    from that outer_step_barrier_size[of E ?init earlier, OF _ m]
    have e: "min_barrier_size \<le> barrier_size earlier" "barrier_size earlier \<le> 25"
      by (simp_all add: i)
    from that outer_step_barrier_size[of E earlier later, OF _ e(1)] e show ?thesis by simp
  qed
  obtain n where n: "barrier_size (run E opt)
      = (update_barrier_size ^^ n) (barrier_size (outer_pass E ?init))"
    using outer_loop_barrier_size[of E "outer_pass E ?init"] by (auto simp: run_first_pass)
  then have "barrier_size (run E opt) = (update_barrier_size ^^ Suc n) 25"
    by (simp add: outer_pass_barrier_size i funpow_swap1)
  then have iter: "\<exists>k. 0 < k \<and> barrier_size (run E opt) = (update_barrier_size ^^ k) 25"
    by blast
  have p: "barrier_size (outer_pass E ?init) = 20"
    by (simp add: outer_pass_barrier_size i update_barrier_size_initial)
  have "min_barrier_size \<le> barrier_size (outer_pass E ?init)"
    by (simp add: p min_barrier_size_def)
  from outer_step_barrier_size[OF rest this] p
  have final: "min_barrier_size \<le> barrier_size (run E opt)" "barrier_size (run E opt) \<le> 20"
    by simp_all
  have formula: "update_barrier_size barrier
      = max (min (barrier * 0.8) (barrier powr 1.2)) min_barrier_size"
    by (rule update_barrier_size_max_min)
  have floor: "min_barrier_size = 0.0005" by (simp add: min_barrier_size_def)
  have inner: "barrier_size (inner_loop E converged rs) = barrier_size rs"
    by (rule inner_loop_barrier_size)
  have pass: "barrier_size (outer_pass E rs) = update_barrier_size (barrier_size rs)"
    by (rule outer_pass_barrier_size)
  have all: "\<forall>earlier later.
         rtranclp (outer_step E) (initial_run_state opt) earlier
         \<and> rtranclp (outer_step E) earlier later \<longrightarrow>
           min_barrier_size \<le> barrier_size later
           \<and> barrier_size later \<le> barrier_size earlier
           \<and> barrier_size earlier \<le> 25"
    using mono by blast
  show ?thesis
    by (intro conjI) (fact formula floor inner pass i first rest stop all iter final)+
qed

theorem barrier_size_schedule_witness:
  "rtranclp (outer_step (penalty_environment 4)) (initial_run_state unit_optimizer)
     (outer_pass (penalty_environment 4) (initial_run_state unit_optimizer))
   \<and> rtranclp (outer_step (penalty_environment 4))
        (outer_pass (penalty_environment 4) (initial_run_state unit_optimizer))
        (run (penalty_environment 4) unit_optimizer)
   \<and> barrier_size (outer_pass (penalty_environment 4) (initial_run_state unit_optimizer)) = 20
   \<and> min_barrier_size \<le> barrier_size (run (penalty_environment 4) unit_optimizer)
   \<and> barrier_size (run (penalty_environment 4) unit_optimizer)
        \<le> barrier_size (outer_pass (penalty_environment 4) (initial_run_state unit_optimizer))
   \<and> barrier_size (outer_pass (penalty_environment 4) (initial_run_state unit_optimizer)) \<le> 25"
proof -
  let ?E = "penalty_environment 4"
  let ?init = "initial_run_state unit_optimizer"
  note schedule = barrier_size_schedule[where E = ?E and opt = unit_optimizer and rs = ?init]
  from schedule have first: "rtranclp (outer_step ?E) ?init (outer_pass ?E ?init)"
    by blast
  from schedule have rest: "rtranclp (outer_step ?E) (outer_pass ?E ?init) (run ?E unit_optimizer)"
    by blast
  from schedule have "barrier_size (outer_pass ?E ?init) = update_barrier_size 25"
    by simp
  then have p: "barrier_size (outer_pass ?E ?init) = 20"
    by (simp add: update_barrier_size_initial)
  from schedule first rest
  have "min_barrier_size \<le> barrier_size (run ?E unit_optimizer)
      \<and> barrier_size (run ?E unit_optimizer) \<le> barrier_size (outer_pass ?E ?init)
      \<and> barrier_size (outer_pass ?E ?init) \<le> 25"
    by blast
  with first rest p show ?thesis by simp
qed

subsection \<open>The backtracking step\<close>

lemma scaled_step_size_first:
  assumes "k < n"
    and "\<forall>j<k. \<not> descent_test E opt state step d b (s / 2 ^ j)"
    and "descent_test E opt state step d b (s / 2 ^ k)"
  shows "scaled_step_size E opt state step d b n s = s / 2 ^ k"
  using assms
proof (induction n arbitrary: s k)
  case 0
  then show ?case by simp
next
  case (Suc n)
  show ?case
  proof (cases k)
    case 0
    with Suc.prems show ?thesis by simp
  next
    case (Suc k')
    with Suc.prems have fail: "\<not> descent_test E opt state step d b s" by force
    have a2: "\<forall>j<k'. \<not> descent_test E opt state step d b (s / 2 / 2 ^ j)"
    proof (intro allI impI)
      fix j assume "j < k'"
      then have "Suc j < k" using Suc by simp
      with Suc.prems(2) have "\<not> descent_test E opt state step d b (s / 2 ^ Suc j)" by blast
      then show "\<not> descent_test E opt state step d b (s / 2 / 2 ^ j)" by simp
    qed
    have a3: "descent_test E opt state step d b (s / 2 / 2 ^ k')"
      using Suc.prems(3) Suc by simp
    have a1: "k' < n" using Suc.prems(1) Suc by simp
    have "scaled_step_size E opt state step d b n (s / 2) = s / 2 / 2 ^ k'"
      using a1 a2 a3 by (rule Suc.IH)
    with fail Suc show ?thesis by simp
  qed
qed

lemma scaled_step_size_exhausted:
  assumes "\<forall>j<n. \<not> descent_test E opt state step d b (s / 2 ^ j)"
  shows "scaled_step_size E opt state step d b n s = s / 2 ^ n"
  using assms
proof (induction n arbitrary: s)
  case 0
  then show ?case by simp
next
  case (Suc n)
  from Suc.prems have fail: "\<not> descent_test E opt state step d b s" by force
  have "\<forall>j<n. \<not> descent_test E opt state step d b (s / 2 / 2 ^ j)"
  proof (intro allI impI)
    fix j assume "j < n"
    then have "Suc j < Suc n" by simp
    with Suc.prems have "\<not> descent_test E opt state step d b (s / 2 ^ Suc j)" by blast
    then show "\<not> descent_test E opt state step d b (s / 2 / 2 ^ j)" by simp
  qed
  from Suc.IH[OF this] fail show ?case by simp
qed

text \<open>
  Claim C8, as the program has it. \<open>take_scaled_step state step descent_requirement
  barrier_size\<close> returns \<open>state + step_size * step\<close>. The step size starts at 1 and is
  halved after each failed test \<open>merit (state + step_size * step) < merit state +
  step_size * descent_requirement * derivative\<close> (the derivative a forward difference
  with perturbation 0.0001), for at most ten tests: the sizes tested are
  \<open>1, 1/2, \<dots>, 1/2\<^sup>9\<close> and the first that passes is used. When none of the ten passes,
  the function returns normally with the size \<open>1/2\<^sup>1\<^sup>0\<close>: the result of the tenth halving,
  half of the smallest size tested, and itself never tested.
\<close>

theorem take_scaled_step_backtracking:
  "descent_test E opt state step d barrier s =
     (calculate_exact_merit E opt (block_add state (block_scale s step)) barrier
        < calculate_exact_merit E opt state barrier
          + Finite (s * d)
            * ((calculate_exact_merit E opt (block_add state (block_scale 0.0001 step)) barrier
                  - calculate_exact_merit E opt state barrier) / Finite 0.0001))
   \<and> (k < 10 \<and> (\<forall>j<k. \<not> descent_test E opt state step d barrier (1 / 2 ^ j))
         \<and> descent_test E opt state step d barrier (1 / 2 ^ k) \<longrightarrow>
       take_scaled_step E opt state step d barrier = block_add state (block_scale (1 / 2 ^ k) step))
   \<and> ((\<forall>j<10. \<not> descent_test E opt state step d barrier (1 / 2 ^ j)) \<longrightarrow>
       take_scaled_step E opt state step d barrier = block_add state (block_scale (1 / 2 ^ 10) step))"
proof (intro conjI impI)
  show "descent_test E opt state step d barrier s =
     (calculate_exact_merit E opt (block_add state (block_scale s step)) barrier
        < calculate_exact_merit E opt state barrier
          + Finite (s * d)
            * ((calculate_exact_merit E opt (block_add state (block_scale 0.0001 step)) barrier
                  - calculate_exact_merit E opt state barrier) / Finite 0.0001))"
    by (simp add: descent_test_def Let_def)
next
  assume a: "k < 10 \<and> (\<forall>j<k. \<not> descent_test E opt state step d barrier (1 / 2 ^ j))
         \<and> descent_test E opt state step d barrier (1 / 2 ^ k)"
  then have e: "scaled_step_size E opt state step d barrier 10 1 = 1 / 2 ^ k"
    by (intro scaled_step_size_first) simp_all
  show "take_scaled_step E opt state step d barrier = block_add state (block_scale (1 / 2 ^ k) step)"
    unfolding take_scaled_step_def e by (rule refl)
next
  assume "\<forall>j<10. \<not> descent_test E opt state step d barrier (1 / 2 ^ j)"
  then have e: "scaled_step_size E opt state step d barrier 10 1 = 1 / 2 ^ 10"
    by (rule scaled_step_size_exhausted)
  show "take_scaled_step E opt state step d barrier = block_add state (block_scale (1 / 2 ^ 10) step)"
    unfolding take_scaled_step_def e by (rule refl)
qed

lemma example_merit:
  assumes "0 \<le> a" and "0 \<le> c"
  shows "calculate_exact_merit example_environment example_optimizer (\<lambda>b. [a, c]) b'
       = Finite (13 / 4 * a + 15 / 4 * c)"
  using assms
  by (simp add: calculate_exact_merit_def Let_def objective_function_merit_def
      example_environment_def example_optimizer_def example_cells_def get_function_values_def
      contract_def traction_def down_force_def held_still_def l1_norm_def field_simps)

lemma example_uphill_ray:
  "block_add example_state (block_scale s example_state) = (\<lambda>b. [1 + s, 2 + s * 2])"
  by (simp add: block_add_def block_scale_def vec_add_def vec_scale_def example_state_def)

lemma example_descent_ray:
  "block_add example_state (block_scale s example_descent_step) = (\<lambda>b. [1 - s / 2, 2 - s])"
  by (simp add: block_add_def block_scale_def vec_add_def vec_scale_def example_state_def
      example_descent_step_def)

lemma example_uphill_test:
  assumes "0 < s"
  shows "\<not> descent_test example_environment example_optimizer example_state example_state
           descent_requirement b s"
proof -
  have m0: "calculate_exact_merit example_environment example_optimizer example_state b = Finite (43 / 4)"
    using example_merit[of 1 2 b] by (simp add: example_state_def)
  have ms: "calculate_exact_merit example_environment example_optimizer
      (block_add example_state (block_scale t example_state)) b = Finite ((1 + t) * (43 / 4))"
    if "0 \<le> t" for t
    using that example_merit[of "1 + t" "2 + t * 2" b]
    by (simp add: example_uphill_ray field_simps)
  from assms show ?thesis
    by (simp add: descent_test_def Let_def m0 ms descent_requirement_def algebra_simps)
qed

lemma example_descent_test:
  "descent_test example_environment example_optimizer example_state example_descent_step
     descent_requirement b 1"
proof -
  have m0: "calculate_exact_merit example_environment example_optimizer example_state b = Finite (43 / 4)"
    using example_merit[of 1 2 b] by (simp add: example_state_def)
  have ms: "calculate_exact_merit example_environment example_optimizer
      (block_add example_state (block_scale t example_descent_step)) b
        = Finite ((1 - t / 2) * (43 / 4))"
    if "0 \<le> t" "t \<le> 2" for t
    using that example_merit[of "1 - t / 2" "2 - t" b]
    by (simp add: example_descent_ray field_simps)
  show ?thesis
    by (simp add: descent_test_def Let_def m0 ms descent_requirement_def)
qed

theorem take_scaled_step_backtracking_witness:
  "descent_test example_environment example_optimizer example_state example_descent_step
     descent_requirement 25 (1 / 2 ^ 0)
   \<and> take_scaled_step example_environment example_optimizer example_state example_descent_step
       descent_requirement 25
     = block_add example_state (block_scale (1 / 2 ^ 0) example_descent_step)
   \<and> list_all (\<lambda>j. \<not> descent_test example_environment example_optimizer example_state
        example_state descent_requirement 25 (1 / 2 ^ j)) [0..<10]
   \<and> take_scaled_step example_environment example_optimizer example_state example_state
       descent_requirement 25
     = block_add example_state (block_scale (1 / 2 ^ 10) example_state)"
proof -
  have pass: "descent_test example_environment example_optimizer example_state
      example_descent_step descent_requirement 25 (1 / 2 ^ 0)"
    using example_descent_test[of 25] by simp
  have fail: "\<not> descent_test example_environment example_optimizer example_state
      example_state descent_requirement 25 (1 / 2 ^ j)" for j
    by (rule example_uphill_test) simp
  from take_scaled_step_backtracking[of example_environment example_optimizer example_state
      example_descent_step descent_requirement 25 1 0] pass
  have a: "take_scaled_step example_environment example_optimizer example_state
      example_descent_step descent_requirement 25
     = block_add example_state (block_scale (1 / 2 ^ 0) example_descent_step)"
    by simp
  from take_scaled_step_backtracking[of example_environment example_optimizer example_state
      example_state descent_requirement 25 1 0] fail
  have b: "take_scaled_step example_environment example_optimizer example_state example_state
       descent_requirement 25
     = block_add example_state (block_scale (1 / 2 ^ 10) example_state)"
    by blast
  from pass a b fail show ?thesis by (simp add: list_all_iff)
qed

text \<open>
  The claim as it was stated (when no tried size passes the test, the smallest tried size
  is used) fails: here the ten tests at \<open>1, \<dots>, 1/2\<^sup>9\<close> all fail and the result is
  \<open>state + step / 1024\<close>, not \<open>state + step / 512\<close>.
\<close>

theorem take_scaled_step_smallest_tried_counterexample:
  "list_all (\<lambda>j. \<not> descent_test example_environment example_optimizer example_state
        example_state descent_requirement 25 (1 / 2 ^ j)) [0..<10]
   \<and> take_scaled_step example_environment example_optimizer example_state example_state
       descent_requirement 25
     \<noteq> block_add example_state (block_scale (1 / 2 ^ 9) example_state)
   \<and> take_scaled_step example_environment example_optimizer example_state example_state
       descent_requirement 25 displacement = [1025 / 1024, 1025 / 512]"
proof -
  have fail: "\<not> descent_test example_environment example_optimizer example_state
      example_state descent_requirement 25 (1 / 2 ^ j)" for j
    by (rule example_uphill_test) simp
  then have "\<forall>j<10. \<not> descent_test example_environment example_optimizer example_state
      example_state descent_requirement 25 (1 / 2 ^ j)" by blast
  then have "scaled_step_size example_environment example_optimizer example_state
      example_state descent_requirement 25 10 1 = 1 / 2 ^ 10"
    by (rule scaled_step_size_exhausted)
  then have t: "take_scaled_step example_environment example_optimizer example_state example_state
       descent_requirement 25 = (\<lambda>b. [1 + 1 / 2 ^ 10, 2 + 1 / 2 ^ 10 * 2])"
    unfolding take_scaled_step_def by (simp only: example_uphill_ray)
  have n: "(\<lambda>b::solution_block. [1 + 1 / 2 ^ 10, 2 + 1 / 2 ^ 10 * 2 :: real])
      \<noteq> (\<lambda>b. [1 + 1 / 2 ^ 9, 2 + 1 / 2 ^ 9 * 2])"
  proof
    assume "(\<lambda>b::solution_block. [1 + 1 / 2 ^ 10, 2 + 1 / 2 ^ 10 * 2 :: real])
      = (\<lambda>b. [1 + 1 / 2 ^ 9, 2 + 1 / 2 ^ 9 * 2])"
    then have "[1 + 1 / 2 ^ 10, 2 + 1 / 2 ^ 10 * 2 :: real] = [1 + 1 / 2 ^ 9, 2 + 1 / 2 ^ 9 * 2]"
      by (rule fun_cong[where x = displacement])
    then show False by simp
  qed
  from fail t n show ?thesis
    by (simp add: list_all_iff example_uphill_ray)
qed

subsection \<open>Strict feasibility of the iterates\<close>

text \<open>
  With \<open>\<tau> * x + p \<ge> 0\<close>, \<open>x > 0\<close> and \<open>0 \<le> \<tau> < 1\<close>, the point \<open>x + t * p\<close> is positive
  for every \<open>t\<close> in \<open>[0, 1]\<close>: the fraction-to-boundary rule leaves the margin
  \<open>(1 - \<tau>) * x\<close>.
\<close>

lemma scaled_component_positive:
  fixes x p t tau :: real
  assumes "0 < x" and "0 \<le> tau * x + p" and "0 \<le> t" and "t \<le> 1" and "0 \<le> tau" and "tau < 1"
  shows "0 < x + t * p"
proof (cases "0 \<le> p")
  case True
  with assms(3) have "0 \<le> t * p" by simp
  with assms(1) show ?thesis by linarith
next
  case False
  then have "p < 0" by simp
  with assms(4) have "1 * p \<le> t * p" by (intro mult_right_mono_neg) simp_all
  moreover from assms(1,6) have "tau * x < 1 * x" by (intro mult_strict_right_mono) simp_all
  ultimately show ?thesis using assms(2) by linarith
qed

lemma scaled_block_positive:
  assumes "is_positive xs"
    and "is_non_negative (vec_add (vec_scale tau xs) (vec_scale s ys))"
    and "0 \<le> t" and "t \<le> 1" and "0 \<le> tau" and "tau < 1"
  shows "is_positive (vec_add xs (vec_scale t (vec_scale s ys)))"
  using assms(1,2)
proof (induction xs arbitrary: ys)
  case Nil
  then show ?case by (simp add: is_positive_def vec_add_def)
next
  case (Cons x xs)
  show ?case
  proof (cases ys)
    case Nil
    then show ?thesis by (simp add: is_positive_def vec_add_def vec_scale_def)
  next
    case (Cons y ys')
    from Cons.prems Cons have x: "0 < x" and tx: "0 \<le> tau * x + s * y"
      and xs: "is_positive xs"
      and r: "is_non_negative (vec_add (vec_scale tau xs) (vec_scale s ys'))"
      by (simp_all add: is_positive_def is_non_negative_def vec_add_def vec_scale_def)
    from scaled_component_positive[OF x tx assms(3,4,5,6)] have "0 < x + t * (s * y)" .
    with Cons.IH[OF xs r] Cons show ?thesis
      by (simp add: is_positive_def vec_add_def vec_scale_def)
  qed
qed

lemma find_max_step_feasible_direction:
  assumes "strictly_feasible state"
  shows "feasible_direction state (fst (find_max_step E opt state b))"
proof -
  let ?step = "linear_solution (newton_system E opt state b)"
  let ?tau = "fraction_to_boundary b"
  from calculate_max_step_size_accepted[OF assms, of ?step b] obtain s z
    where sz: "calculate_max_step_size state ?step b = (s, z)"
      and as: "accept_s ?tau state ?step s" and az: "accept_z ?tau state ?step z"
    by blast
  have ms: "fst (find_max_step E opt state b) = max_step_block s z ?step"
    by (simp add: find_max_step_step sz)
  have tau: "0 \<le> ?tau" "?tau < 1" using fraction_to_boundary_bounds[of b] by simp_all
  show ?thesis
    unfolding feasible_direction_def
  proof (intro allI impI)
    fix t :: real
    assume t: "0 \<le> t \<and> t \<le> 1"
    then have t0: "0 \<le> t" and t1: "t \<le> 1" by simp_all
    from assms as az
    show "strictly_feasible (block_add state (block_scale t (fst (find_max_step E opt state b))))"
      unfolding strictly_feasible_def accept_s_def accept_z_def state_test_def ms
        block_add_def block_scale_def max_step_block.simps
      by (intro conjI scaled_block_positive[OF _ _ t0 t1 tau]) simp_all
  qed
qed

lemma vec_scale_one [simp]: "vec_scale 1 xs = xs"
  by (simp add: vec_scale_def)

lemma block_scale_one [simp]: "block_scale 1 v = v"
  by (simp add: block_scale_def)

lemma feasible_direction_full:
  assumes "feasible_direction state step"
  shows "strictly_feasible (block_add state step)"
  using assms[unfolded feasible_direction_def, rule_format, of 1] by simp

lemma scaled_step_size_range:
  assumes "0 < s" and "s \<le> 1"
  shows "0 < scaled_step_size E opt state step d b n s \<and> scaled_step_size E opt state step d b n s \<le> 1"
  using assms by (induction n arbitrary: s) simp_all

lemma take_scaled_step_feasible:
  assumes "feasible_direction state step"
  shows "strictly_feasible (take_scaled_step E opt state step d b)"
  using assms scaled_step_size_range[of 1 E opt state step d b 10]
  by (simp add: feasible_direction_def take_scaled_step_def)

text \<open>
  The speculative advances of the uphill loop: every \<^verbatim>\<open>current_state\<close> is strictly
  feasible and \<^verbatim>\<open>watchdog_step\<close> is a feasible direction at \<^verbatim>\<open>watchdog_state\<close>.
\<close>

lemma uphill_loop_feasible:
  assumes "strictly_feasible (current_state rs)"
    and "k = 0 \<Longrightarrow> current_state rs = ws"
    and "0 < k \<Longrightarrow> feasible_direction ws (watchdog_step w)"
  shows "strictly_feasible (current_state (fst (uphill_loop E ws k rs w)))
       \<and> feasible_direction ws (watchdog_step (snd (uphill_loop E ws k rs w)))"
  using assms
proof (induction E ws k rs w rule: uphill_loop.induct)
  case (1 E ws k rs w)
  show ?case
  proof (cases "k < max_uphill_steps")
    case False
    then have "0 < k" by (simp add: max_uphill_steps_def)
    with False "1.prems" show ?thesis by (simp add: uphill_loop.simps[of E ws k rs w])
  next
    case True
    obtain step opt
      where f: "find_max_step E (members rs) (current_state rs) (barrier_size rs) = (step, opt)"
      by (cases "find_max_step E (members rs) (current_state rs) (barrier_size rs)")
    let ?wstep = "if k = 0 then step else watchdog_step w"
    let ?state = "block_add (current_state rs) step"
    let ?rs1 = "rs\<lparr>current_step := step, current_state := ?state, members := opt\<rparr>"
    have dir: "feasible_direction (current_state rs) step"
      using find_max_step_feasible_direction[OF "1.prems"(1), of E "members rs" "barrier_size rs"] f
      by simp
    then have st: "strictly_feasible ?state" by (rule feasible_direction_full)
    have wd: "feasible_direction ws ?wstep"
      using dir "1.prems"(2,3) by (cases "k = 0") simp_all
    let ?goal = "calculate_exact_merit E opt ws (barrier_size rs)
        + Finite descent_requirement *
          ((calculate_exact_merit E opt (block_add ws (block_scale 0.0001 ?wstep)) (barrier_size rs)
            - calculate_exact_merit E opt ws (barrier_size rs)) / Finite 0.0001)"
    let ?w1 = "w\<lparr>watchdog_step := ?wstep, goal_merit := ?goal\<rparr>"
    show ?thesis
    proof (cases "calculate_exact_merit E opt ?state (barrier_size rs) < ?goal")
      case accepted: True
      with True f
      have "uphill_loop E ws k rs w = (?rs1\<lparr>iteration_number := iteration_number rs + k + 1\<rparr>,
          ?w1\<lparr>found_step := True\<rparr>)"
        by (simp add: uphill_loop.simps[of E ws k rs w] Let_def)
      with st wd show ?thesis by simp
    next
      case False
      with True f have next_pass: "uphill_loop E ws k rs w = uphill_loop E ws (k + 1) ?rs1 ?w1"
        by (simp add: uphill_loop.simps[of E ws k rs w] Let_def)
      have "strictly_feasible (current_state (fst (uphill_loop E ws (k + 1) ?rs1 ?w1)))
          \<and> feasible_direction ws (watchdog_step (snd (uphill_loop E ws (k + 1) ?rs1 ?w1)))"
      proof (rule "1.IH"[OF True f[symmetric] refl refl refl refl refl refl refl False])
        show "strictly_feasible (current_state ?rs1)" using st by simp
        show "current_state ?rs1 = ws" if "k + 1 = 0" using that by simp
        show "feasible_direction ws (watchdog_step ?w1)" using wd by simp
      qed
      with next_pass show ?thesis by simp
    qed
  qed
qed

lemma backtrack_feasible:
  assumes "strictly_feasible (current_state rs)"
    and "feasible_direction ws (watchdog_step w)"
  shows "strictly_feasible (current_state (backtrack E ws rs w))"
proof (cases rule: backtrack_cases[of E rs ws w])
  case (stretch step opt)
  from find_max_step_feasible_direction[OF assms(1), of E "members rs" "barrier_size rs"]
    stretch(1,3)
  show ?thesis by (simp add: take_scaled_step_feasible)
next
  case (from_watchdog step opt)
  with assms(2) show ?thesis by (simp add: take_scaled_step_feasible)
next
  case (from_stretch step opt stretch_step opt2)
  let ?stretch = "take_scaled_step E opt (current_state rs) step descent_requirement (barrier_size rs)"
  have "strictly_feasible ?stretch"
    using find_max_step_feasible_direction[OF assms(1), of E "members rs" "barrier_size rs"]
      from_stretch(1)
    by (simp add: take_scaled_step_feasible)
  from find_max_step_feasible_direction[OF this, of E opt "barrier_size rs"] from_stretch(4,5)
  show ?thesis by (simp add: take_scaled_step_feasible)
qed

lemma watchdog_cycle_feasible:
  assumes "strictly_feasible (current_state rs)"
  shows "strictly_feasible (current_state (watchdog_cycle E rs))"
proof -
  let ?w0 = "\<lparr>found_step = False, watchdog_step = (\<lambda>b. []), goal_merit = Finite 0\<rparr>"
  obtain rs1 w where u: "uphill_loop E (current_state rs) 0 rs ?w0 = (rs1, w)"
    by (cases "uphill_loop E (current_state rs) 0 rs ?w0")
  have "strictly_feasible (current_state (fst (uphill_loop E (current_state rs) 0 rs ?w0)))
      \<and> feasible_direction (current_state rs)
          (watchdog_step (snd (uphill_loop E (current_state rs) 0 rs ?w0)))"
    by (rule uphill_loop_feasible[OF assms]) simp_all
  with u have f: "strictly_feasible (current_state rs1)"
    "feasible_direction (current_state rs) (watchdog_step w)" by simp_all
  from u f backtrack_feasible[OF f, of E] show ?thesis
    by (simp add: watchdog_cycle_def Let_def)
qed

lemma inner_loop_feasible:
  assumes "strictly_feasible (current_state rs)"
  shows "strictly_feasible (current_state (inner_loop E converged rs))"
  using assms
proof (induction E converged rs rule: inner_loop.induct)
  case (1 E converged rs)
  show ?case
  proof (cases "\<not> converged \<and> iteration_number rs < 10000")
    case False
    with "1.prems" show ?thesis by (auto simp: inner_loop.simps[of E converged rs])
  next
    case True
    let ?rs1 = "watchdog_cycle E rs"
    obtain c opt where cc: "check_convergence E (members ?rs1) (current_state ?rs1) (barrier_size ?rs1) = (c, opt)"
      by (cases "check_convergence E (members ?rs1) (current_state ?rs1) (barrier_size ?rs1)")
    have n: "inner_loop E converged rs = inner_loop E c (?rs1\<lparr>members := opt\<rparr>)"
      using True cc by (subst inner_loop.simps) (simp add: Let_def)
    from watchdog_cycle_feasible[OF "1.prems", of E]
    have "strictly_feasible (current_state (?rs1\<lparr>members := opt\<rparr>))" by simp
    from "1.IH"[OF True refl cc[symmetric] this] n show ?thesis by simp
  qed
qed

lemma outer_pass_feasible:
  assumes "strictly_feasible (current_state rs)"
  shows "strictly_feasible (current_state (outer_pass E rs))"
  using inner_loop_feasible[OF assms, of E False] by (simp add: outer_pass_def Let_def)

lemma outer_step_feasible:
  assumes "rtranclp (outer_step E) rs rs'" and "strictly_feasible (current_state rs)"
  shows "strictly_feasible (current_state rs')"
  using assms
proof (induction rule: rtranclp_induct)
  case base
  then show ?case by simp
next
  case (step y z)
  from step.hyps(2) step.IH[OF step.prems] show ?case
    by (simp add: outer_step_def outer_pass_feasible)
qed

lemma run_reachable: "rtranclp (outer_step E) (initial_run_state opt) (run E opt)"
  unfolding run_def using outer_loop_reachable[of E "initial_run_state opt"] by simp

lemma run_feasible:
  assumes "strictly_feasible (nonlinear_solution opt)"
  shows "strictly_feasible (current_state (run E opt))"
  using outer_step_feasible[OF run_reachable[of E opt]] assms
  by (simp add: initial_run_state_def)

text \<open>
  Claim C10. From a current state whose \<open>density_lower_slack\<close>,
  \<open>density_upper_slack\<close>, \<open>density_lower_slack_multiplier\<close> and
  \<open>density_upper_slack_multiplier\<close> blocks are strictly positive, every state update of
  the driver keeps them strictly positive: the speculative advance by the step that
  \<open>find_max_step\<close> returns for the state, and the result of \<open>take_scaled_step\<close> on
  such a step (which scales it by a factor in \<open>(0, 1]\<close>), with whatever members and
  barrier size the merit is computed; hence the state after the uphill loop, after a
  watchdog cycle, after the inner loop, at the head of every pass of the outer loop and
  at the end of \<open>run\<close>.
\<close>

theorem strict_feasibility_preserved:
  assumes "strictly_feasible state"
  shows "strictly_feasible (block_add state (fst (find_max_step E opt state barrier)))
       \<and> strictly_feasible
           (take_scaled_step E opt_merit state (fst (find_max_step E opt state barrier)) d
              barrier_merit)
       \<and> (\<exists>t. 0 < t \<and> t \<le> 1
             \<and> take_scaled_step E opt_merit state max_step d barrier_merit
                 = block_add state (block_scale t max_step))
       \<and> (current_state rs = state \<longrightarrow>
            strictly_feasible (current_state (fst (uphill_loop E state 0 rs w)))
            \<and> strictly_feasible (current_state (watchdog_cycle E rs))
            \<and> strictly_feasible (current_state (inner_loop E converged rs)))
       \<and> (nonlinear_solution opt_run = state \<longrightarrow>
            (\<forall>rs_head. rtranclp (outer_step E) (initial_run_state opt_run) rs_head \<longrightarrow>
               strictly_feasible (current_state rs_head))
            \<and> strictly_feasible (current_state (run E opt_run)))"
proof (intro conjI impI allI)
  have dir: "feasible_direction state (fst (find_max_step E opt state barrier))"
    using assms by (rule find_max_step_feasible_direction)
  then show "strictly_feasible (block_add state (fst (find_max_step E opt state barrier)))"
    by (rule feasible_direction_full)
  from dir show "strictly_feasible
      (take_scaled_step E opt_merit state (fst (find_max_step E opt state barrier)) d barrier_merit)"
    by (rule take_scaled_step_feasible)
next
  from scaled_step_size_range[of 1 E opt_merit state max_step d barrier_merit 10]
  show "\<exists>t. 0 < t \<and> t \<le> 1
             \<and> take_scaled_step E opt_merit state max_step d barrier_merit
                 = block_add state (block_scale t max_step)"
    unfolding take_scaled_step_def by (intro exI conjI) (simp_all del: scaled_step_size.simps)
next
  assume c: "current_state rs = state"
  with assms have s: "strictly_feasible (current_state rs)" by simp
  from uphill_loop_feasible[OF s, of 0 "current_state rs" w E] c
  show "strictly_feasible (current_state (fst (uphill_loop E state 0 rs w)))" by simp
  from s show "strictly_feasible (current_state (watchdog_cycle E rs))"
    by (rule watchdog_cycle_feasible)
  from s show "strictly_feasible (current_state (inner_loop E converged rs))"
    by (rule inner_loop_feasible)
next
  fix rs_head
  assume "nonlinear_solution opt_run = state"
    and "rtranclp (outer_step E) (initial_run_state opt_run) rs_head"
  with assms show "strictly_feasible (current_state rs_head)"
    using outer_step_feasible[of E "initial_run_state opt_run" rs_head]
    by (simp add: initial_run_state_def)
next
  assume "nonlinear_solution opt_run = state"
  with assms show "strictly_feasible (current_state (run E opt_run))"
    using run_feasible[of opt_run E] by simp
qed

text \<open>The lower bounds of the binary search never decrease.\<close>

lemma search_loop_low_mono:
  assumes "sl \<le> sh" and "zl \<le> zh"
  shows "case (search_pass ftb state step ^^ n) (sl, sh, zl, zh) of (sl', sh', zl', zh') \<Rightarrow>
           sl \<le> sl' \<and> sl' \<le> sh' \<and> zl \<le> zl' \<and> zl' \<le> zh'"
proof (induction n)
  case 0
  then show ?case using assms by simp
next
  case (Suc n)
  obtain a b c d
    where prev: "(search_pass ftb state step ^^ n) (sl, sh, zl, zh) = (a, b, c, d)"
    by (metis prod_cases4)
  with Suc have "sl \<le> a" "a \<le> b" "zl \<le> c" "c \<le> d" by simp_all
  then show ?case by (simp add: prev Let_def)
qed

lemma shrinking_newton_step:
  "linear_solution (newton_system shrinking_environment opt state b) = shrinking_step"
  by (simp add: newton_system_def solve_def assemble_system_def shrinking_environment_def)

lemma shrinking_first_passes:
  "(search_pass (fraction_to_boundary 25) unit_state shrinking_step ^^ 2) (0, 1, 0, 1)
     = (1 / 4, 1 / 2, 1 / 4, 1 / 2)"
  by (simp add: numeral_2_eq_2 Let_def accept_s_def accept_z_def state_test_def block_add_def
      block_scale_def vec_add_def vec_scale_def is_non_negative_def unit_state_def
      shrinking_step_def fraction_to_boundary_def min_fraction_to_boundary_def)

lemma shrinking_max_step_size:
  "1 / 4 \<le> fst (calculate_max_step_size unit_state shrinking_step 25)"
proof -
  let ?f = "search_pass (fraction_to_boundary 25) unit_state shrinking_step"
  have "(?f ^^ 50) (0, 1, 0, 1) = (?f ^^ 48) ((?f ^^ 2) (0, 1, 0, 1))"
    using funpow_add[of 48 2 ?f] by simp
  then have e: "(?f ^^ 50) (0, 1, 0, 1) = (?f ^^ 48) (1 / 4, 1 / 2, 1 / 4, 1 / 2)"
    by (simp only: shrinking_first_passes)
  obtain a b c d where r: "(?f ^^ 48) (1 / 4, 1 / 2, 1 / 4, 1 / 2) = (a, b, c, d)"
    by (metis prod_cases4)
  from search_loop_low_mono[where sl = "1 / 4" and sh = "1 / 2" and zl = "1 / 4"
      and zh = "1 / 2" and ftb = "fraction_to_boundary 25" and state = unit_state
      and step = shrinking_step and n = 48] r
  have "1 / 4 \<le> a" by simp
  with e r show ?thesis by (simp add: calculate_max_step_size_def)
qed

theorem strict_feasibility_preserved_witness:
  "strictly_feasible unit_state
   \<and> (\<exists>x. fst (find_max_step shrinking_environment unit_optimizer unit_state 25)
             density_lower_slack = [x] \<and> x < 0)
   \<and> strictly_feasible
       (block_add unit_state (fst (find_max_step shrinking_environment unit_optimizer unit_state 25)))
   \<and> strictly_feasible
       (take_scaled_step shrinking_environment unit_optimizer unit_state
          (fst (find_max_step shrinking_environment unit_optimizer unit_state 25))
          descent_requirement 25)
   \<and> strictly_feasible
       (current_state (fst (uphill_loop shrinking_environment unit_state 0
          (initial_run_state unit_optimizer)
          \<lparr>found_step = False, watchdog_step = (\<lambda>b. []), goal_merit = Finite 0\<rparr>)))
   \<and> strictly_feasible
       (current_state (watchdog_cycle shrinking_environment (initial_run_state unit_optimizer)))
   \<and> strictly_feasible
       (current_state (inner_loop shrinking_environment False (initial_run_state unit_optimizer)))
   \<and> rtranclp (outer_step shrinking_environment) (initial_run_state unit_optimizer)
       (outer_pass shrinking_environment (initial_run_state unit_optimizer))
   \<and> strictly_feasible
       (current_state (outer_pass shrinking_environment (initial_run_state unit_optimizer)))
   \<and> strictly_feasible (current_state (run shrinking_environment unit_optimizer))"
proof -
  let ?E = "shrinking_environment"
  let ?init = "initial_run_state unit_optimizer"
  have h: "strictly_feasible unit_state"
    by (simp add: strictly_feasible_def is_positive_def unit_state_def)
  have "fst (find_max_step ?E unit_optimizer unit_state 25) density_lower_slack
      = [fst (calculate_max_step_size unit_state shrinking_step 25) * - 2]"
    by (simp add: find_max_step_step shrinking_newton_step vec_scale_def shrinking_step_def)
  with shrinking_max_step_size
  have decreasing: "\<exists>x. fst (find_max_step ?E unit_optimizer unit_state 25)
             density_lower_slack = [x] \<and> x < 0"
    by simp
  have c: "current_state ?init = unit_state"
    and n: "nonlinear_solution unit_optimizer = unit_state"
    by (simp_all add: initial_run_state_def unit_optimizer_def)
  have "outer_step ?E ?init (outer_pass ?E ?init)"
    by (simp add: outer_step_def initial_outer_condition)
  then have first: "rtranclp (outer_step ?E) ?init (outer_pass ?E ?init)"
    by (rule r_into_rtranclp)
  from strict_feasibility_preserved[OF h, where E = ?E and opt = unit_optimizer and barrier = 25
      and opt_merit = unit_optimizer and d = descent_requirement
      and barrier_merit = 25 and rs = ?init and converged = False
      and w = "\<lparr>found_step = False, watchdog_step = (\<lambda>b. []), goal_merit = Finite 0\<rparr>"
      and opt_run = unit_optimizer] h decreasing c n first
  show ?thesis by blast
qed

subsection \<open>The watchdog cycle\<close>

lemma search_loop_all_accepted:
  assumes "\<And>s. accept_s ftb state step s" and "\<And>z. accept_z ftb state step z"
  shows "(search_pass ftb state step ^^ n) (0, 1, 0, 1) = (1 - 1 / 2 ^ n, 1, 1 - 1 / 2 ^ n, 1)"
proof (induction n)
  case 0
  then show ?case by simp
next
  case (Suc n)
  then show ?case by (simp add: assms Let_def field_simps)
qed

lemma calculate_max_step_size_all_accepted:
  assumes "\<And>s. accept_s (fraction_to_boundary b) state step s"
    and "\<And>z. accept_z (fraction_to_boundary b) state step z"
  shows "calculate_max_step_size state step b = (profile_step_size, profile_step_size)"
  unfolding calculate_max_step_size_def search_loop_all_accepted[OF assms] profile_step_size_def
  by simp

lemma profile_accept:
  "accept_s (fraction_to_boundary b) (profile_state x) profile_step s"
  "accept_z (fraction_to_boundary b) (profile_state x) profile_step z"
  using fraction_to_boundary_bounds[of b]
  by (simp_all add: accept_s_def accept_z_def state_test_def block_add_def block_scale_def
      vec_add_def vec_scale_def is_non_negative_def profile_step_def)

lemma profile_max_step_size:
  "calculate_max_step_size (profile_state x) profile_step b = (profile_step_size, profile_step_size)"
  by (rule calculate_max_step_size_all_accepted) (rule profile_accept)+

lemma profile_max_step_block:
  "max_step_block s z profile_step = block_scale s profile_step"
proof
  fix b show "max_step_block s z profile_step b = block_scale s profile_step b"
    by (cases b) (simp_all add: block_scale_def vec_scale_def profile_step_def)
qed

lemma profile_advance:
  "block_add (profile_state x) (block_scale t (block_scale s profile_step)) = profile_state (x + t * s)"
proof
  fix b show "block_add (profile_state x) (block_scale t (block_scale s profile_step)) b
      = profile_state (x + t * s) b"
    by (cases b) (simp_all add: block_add_def block_scale_def vec_add_def vec_scale_def profile_step_def)
qed

lemma profile_advance_full:
  "block_add (profile_state x) (block_scale s profile_step) = profile_state (x + s)"
  using profile_advance[of x 1 s] by simp

lemma merit_profile_nonneg: "0 \<le> merit_profile x"
  by (simp add: merit_profile_def)

lemma profile_merit:
  assumes "penalty_multiplier opt = Finite 1"
  shows "calculate_exact_merit profile_environment opt (profile_state x) b
     = Finite (merit_profile x)"
  using merit_profile_nonneg[of x] assms
  by (simp add: calculate_exact_merit_def Let_def objective_function_merit_def
      profile_environment_def l1_norm_def)

lemma finite_goal_merit:
  "Finite a + Finite d * ((Finite c - Finite a) / Finite 0.0001)
     = Finite (a + d * ((c - a) / 0.0001))"
  by simp

lemma profile_newton_system:
  "linear_solution (newton_system profile_environment opt state b) = profile_step"
  "hess_part (system_matrix (newton_system profile_environment opt state b)) profile_step = 0"
  "grad_part (system_rhs (newton_system profile_environment opt state b)) profile_step = 0"
  "constraint_norm (system_rhs (newton_system profile_environment opt state b)) = 1"
  by (simp_all add: newton_system_def solve_def assemble_system_def profile_environment_def
      profile_step_def hess_part_def grad_part_def constraint_norm_def decision_variables_def
      equality_constraints_def vmult_def dot_def linfty_norm_def)

lemma profile_find_max_step:
  assumes "penalty_multiplier opt = Finite 1"
  shows "find_max_step profile_environment opt (profile_state x) b
       = (block_scale profile_step_size profile_step,
          (newton_system profile_environment opt (profile_state x) b)
            \<lparr>penalty_multiplier := Finite 1\<rparr>)"
proof -
  have "new_penalty_multiplier profile_environment opt (profile_state x) b = Finite 1"
    using assms
    by (simp add: new_penalty_multiplier_def Let_def update_penalty_multiplier_def
        test_penalty_multiplier_def profile_newton_system)
  then show ?thesis
    by (simp add: find_max_step_def Let_def profile_newton_system profile_max_step_size
        profile_max_step_block)
qed

lemma profile_step_size_bounds: "99 / 100 < profile_step_size" "profile_step_size < 1"
  by (simp_all add: profile_step_size_def)

lemma profile_uphill_loop:
  assumes "k \<le> 8" and "0 \<le> xw" and "xw \<le> 0.4"
  shows "current_state rs = profile_state (xw + real k * profile_step_size) \<Longrightarrow>
         penalty_multiplier (members rs) = Finite 1 \<Longrightarrow> barrier_size rs = 25 \<Longrightarrow>
         \<not> found_step w \<Longrightarrow>
         (0 < k \<Longrightarrow> watchdog_step w = block_scale profile_step_size profile_step) \<Longrightarrow>
         (0 < k \<Longrightarrow> goal_merit w = Finite (10 - xw - 0.0001 * profile_step_size)) \<Longrightarrow>
         \<exists>rs1 w1. uphill_loop profile_environment (profile_state xw) k rs w = (rs1, w1)
           \<and> \<not> found_step w1
           \<and> current_state rs1 = profile_state (xw + 8 * profile_step_size)
           \<and> penalty_multiplier (members rs1) = Finite 1
           \<and> barrier_size rs1 = 25
           \<and> iteration_number rs1 = iteration_number rs
           \<and> watchdog_step w1 = block_scale profile_step_size profile_step
           \<and> goal_merit w1 = Finite (10 - xw - 0.0001 * profile_step_size)"
  using assms(1)
proof (induction k arbitrary: rs w rule: inc_induct)
  case base
  then show ?case
    by (simp add: uphill_loop.simps[of _ _ 8] max_uphill_steps_def)
next
  case (step k)
  let ?S = profile_step_size
  let ?E = profile_environment
  let ?x = "xw + real k * ?S"
  have k: "k < max_uphill_steps" using step.hyps by (simp add: max_uphill_steps_def)
  have pm: "penalty_multiplier (members rs) = Finite 1" using step.prems(2) by simp
  let ?opt = "(newton_system ?E (members rs) (profile_state ?x) 25)
      \<lparr>penalty_multiplier := Finite 1\<rparr>"
  have f: "find_max_step ?E (members rs) (current_state rs) (barrier_size rs)
      = (block_scale ?S profile_step, ?opt)"
    using profile_find_max_step[OF pm, of ?x 25] step.prems(1,3) by simp
  have ws: "(if k = 0 then block_scale ?S profile_step else watchdog_step w)
      = block_scale ?S profile_step"
    using step.prems(5) by simp
  let ?rs1 = "rs\<lparr>current_step := block_scale ?S profile_step,
      current_state := profile_state (?x + ?S), members := ?opt\<rparr>"
  let ?w1 = "w\<lparr>watchdog_step := block_scale ?S profile_step,
      goal_merit := Finite (10 - xw - 0.0001 * ?S)\<rparr>"
  have below: "xw + 0.0001 * ?S \<le> 0.5" and xw: "xw \<le> 0.5"
    using assms(3) profile_step_size_bounds by simp_all
  have "real k \<le> 7" using step.hyps by simp
  then have ub: "real k * ?S \<le> 7 * ?S" using profile_step_size_bounds
    by (intro mult_right_mono) simp_all
  have lb: "0 \<le> real k * ?S" using profile_step_size_bounds by simp
  have mid1: "\<not> ?x + ?S \<le> 0.5"
    using ub lb assms(2,3) profile_step_size_bounds by linarith
  have mid2: "?x + ?S < 8.5"
    using ub lb assms(2,3) profile_step_size_bounds by linarith
  note mid = mid1 mid2
  have fail: "\<not> merit_profile (?x + ?S) < 10 - xw - 0.0001 * ?S"
    using mid assms(2) profile_step_size_bounds by (simp add: merit_profile_def)
  have goal: "merit_profile xw + descent_requirement * ((merit_profile (xw + 0.0001 * ?S) - merit_profile xw) / 0.0001)
      = 10 - xw - 0.0001 * ?S"
    using below xw by (simp add: merit_profile_def descent_requirement_def)
  let ?step = "block_scale ?S profile_step"
  have popt: "penalty_multiplier ?opt = Finite 1" by simp
  have st: "block_add (current_state rs) ?step = profile_state (?x + ?S)"
    using step.prems(1) by (simp add: profile_advance_full)
  have gm: "calculate_exact_merit ?E ?opt (profile_state xw) (barrier_size rs)
      + Finite descent_requirement *
        ((calculate_exact_merit ?E ?opt
            (block_add (profile_state xw) (block_scale 0.0001 ?step)) (barrier_size rs)
          - calculate_exact_merit ?E ?opt (profile_state xw) (barrier_size rs)) / Finite 0.0001)
      = Finite (10 - xw - 0.0001 * ?S)"
    unfolding profile_advance profile_merit[OF popt] finite_goal_merit using goal by simp
  have cond: "\<not> calculate_exact_merit ?E ?opt (profile_state (?x + ?S)) (barrier_size rs)
      < Finite (10 - xw - 0.0001 * ?S)"
    unfolding profile_merit[OF popt] using fail by simp
  have unfold: "uphill_loop ?E (profile_state xw) k rs w
      = uphill_loop ?E (profile_state xw) (k + 1) ?rs1 ?w1"
    by (subst uphill_loop.simps)
      (simp only: k if_True f prod.case Let_def ws st gm cond if_False)
  have "\<exists>rs1 w1. uphill_loop ?E (profile_state xw) (Suc k) ?rs1 ?w1 = (rs1, w1)
           \<and> \<not> found_step w1
           \<and> current_state rs1 = profile_state (xw + 8 * ?S)
           \<and> penalty_multiplier (members rs1) = Finite 1
           \<and> barrier_size rs1 = 25
           \<and> iteration_number rs1 = iteration_number ?rs1
           \<and> watchdog_step w1 = block_scale ?S profile_step
           \<and> goal_merit w1 = Finite (10 - xw - 0.0001 * ?S)"
    using step.prems(3,4) by (intro step.IH) (simp_all add: algebra_simps)
  then show ?case unfolding unfold by simp
qed

text \<open>
  Claim C1, as the program has it. In a watchdog cycle of \<open>run\<close>, if none of the
  \<open>max_uphill_steps = 8\<close> speculative steps satisfies the goal-merit test (the loop ends
  with \<open>found_step\<close> false), and the merit of the current state (the state after the
  eight steps) is below the merit of \<open>watchdog_state\<close>, or the merit of the backtracked
  \<open>stretch_state\<close> is below \<open>goal_merit\<close>, then the controller accepts
  \<open>stretch_state\<close> as the new current state and adds \<open>max_uphill_steps + 1 = 9\<close> to
  \<open>iteration_number\<close>. The merit values are those under the penalty multiplier left by
  the call of \<open>find_max_step\<close> that computed the backtracking step.
\<close>

theorem watchdog_accepts_stretch_state:
  assumes "uphill_loop E (current_state rs) 0 rs
             \<lparr>found_step = False, watchdog_step = (\<lambda>b. []), goal_merit = Finite 0\<rparr> = (rs1, w)"
    and "\<not> found_step w"
    and "find_max_step E (members rs1) (current_state rs1) (barrier_size rs) = (step, opt)"
    and "stretch_state = take_scaled_step E opt (current_state rs1) step descent_requirement (barrier_size rs)"
    and "calculate_exact_merit E opt (current_state rs1) (barrier_size rs)
           < calculate_exact_merit E opt (current_state rs) (barrier_size rs)
         \<or> calculate_exact_merit E opt stretch_state (barrier_size rs) < goal_merit w"
  shows "current_state (watchdog_cycle E rs) = stretch_state
       \<and> iteration_number (watchdog_cycle E rs) = iteration_number rs + (max_uphill_steps + 1)
       \<and> max_uphill_steps + 1 = 9"
proof -
  have b: "barrier_size rs1 = barrier_size rs"
    using uphill_loop_barrier_size[of E "current_state rs" 0 rs
        "\<lparr>found_step = False, watchdog_step = (\<lambda>b. []), goal_merit = Finite 0\<rparr>"] assms(1)
    by simp
  have i: "iteration_number rs1 = iteration_number rs"
    using uphill_loop_iteration_number[OF assms(1)] assms(2) by simp
  have w: "watchdog_cycle E rs = backtrack E (current_state rs) rs1 w"
    using assms(1,2) by (simp add: watchdog_cycle_def Let_def)
  have "backtrack E (current_state rs) rs1 w
      = rs1\<lparr>current_step := step, members := opt, current_state := stretch_state,
            iteration_number := iteration_number rs1 + max_uphill_steps + 1\<rparr>"
    unfolding backtrack_def b assms(3) using assms(5) by (simp add: Let_def assms(4))
  with w i show ?thesis by (simp add: max_uphill_steps_def)
qed

lemma merit_profile_values:
  "merit_profile 0 = 10"
  "merit_profile (8 * profile_step_size) = 10"
  "merit_profile (8 * profile_step_size + 0.0001 * profile_step_size) = 10"
  "merit_profile (8 * profile_step_size + profile_step_size) = 10 - 0.00001"
  "merit_profile (8 * profile_step_size + profile_step_size + 0.0001 * profile_step_size)
     = 10 - 0.00001"
  "merit_profile (8 * profile_step_size + profile_step_size + profile_step_size) = 0"
  "merit_profile (0.4 + 8 * profile_step_size) = 10"
  "merit_profile (0.4 + 8 * profile_step_size + 0.0001 * profile_step_size) = 10"
  "merit_profile (0.4 + 8 * profile_step_size + profile_step_size) = 0"
  using profile_step_size_bounds by (simp_all add: merit_profile_def)

lemma profile_take_full_step:
  assumes "penalty_multiplier opt = Finite 1"
    and "merit_profile (x + profile_step_size)
           < merit_profile x
             + descent_requirement * ((merit_profile (x + 0.0001 * profile_step_size) - merit_profile x) / 0.0001)"
  shows "take_scaled_step profile_environment opt (profile_state x)
           (block_scale profile_step_size profile_step) descent_requirement b
         = profile_state (x + profile_step_size)"
proof -
  have "descent_test profile_environment opt (profile_state x)
      (block_scale profile_step_size profile_step) descent_requirement b (1 / 2 ^ 0)"
    unfolding descent_test_def Let_def profile_advance profile_merit[OF assms(1)]
    using assms(2) by simp
  then have "scaled_step_size profile_environment opt (profile_state x)
      (block_scale profile_step_size profile_step) descent_requirement b 10 1 = 1 / 2 ^ 0"
    by (intro scaled_step_size_first) simp_all
  then show ?thesis
    by (simp add: take_scaled_step_def profile_advance_full)
qed

lemma profile_run_state_simps:
  "current_state (profile_run_state x) = profile_state x"
  "barrier_size (profile_run_state x) = 25"
  "iteration_number (profile_run_state x) = 0"
  "penalty_multiplier (members (profile_run_state x)) = Finite 1"
  by (simp_all add: profile_run_state_def unit_optimizer_def example_optimizer_def)


theorem watchdog_accepts_stretch_state_witness:
  "\<exists>rs1 w step opt.
     uphill_loop profile_environment (current_state (profile_run_state 0.4)) 0 (profile_run_state 0.4)
       \<lparr>found_step = False, watchdog_step = (\<lambda>b. []), goal_merit = Finite 0\<rparr> = (rs1, w)
     \<and> \<not> found_step w
     \<and> find_max_step profile_environment (members rs1) (current_state rs1) 25 = (step, opt)
     \<and> calculate_exact_merit profile_environment opt
          (take_scaled_step profile_environment opt (current_state rs1) step descent_requirement 25) 25
         < goal_merit w
     \<and> current_state (watchdog_cycle profile_environment (profile_run_state 0.4))
         = take_scaled_step profile_environment opt (current_state rs1) step descent_requirement 25
     \<and> iteration_number (watchdog_cycle profile_environment (profile_run_state 0.4)) = 9"
proof -
  let ?E = profile_environment
  let ?S = profile_step_size
  let ?rs = "profile_run_state 0.4"
  let ?w0 = "\<lparr>found_step = False, watchdog_step = (\<lambda>b. []), goal_merit = Finite 0\<rparr>"
  let ?step = "block_scale ?S profile_step"
  from profile_uphill_loop[where k = 0 and xw = "0.4" and rs = ?rs and w = ?w0] obtain rs1 w
    where u: "uphill_loop ?E (profile_state 0.4) 0 ?rs ?w0 = (rs1, w)"
      and nf: "\<not> found_step w"
      and cs: "current_state rs1 = profile_state (0.4 + 8 * ?S)"
      and pm: "penalty_multiplier (members rs1) = Finite 1"
      and gm: "goal_merit w = Finite (10 - 0.4 - 0.0001 * ?S)"
    by (auto simp: profile_run_state_simps)
  let ?opt = "(newton_system ?E (members rs1) (profile_state (0.4 + 8 * ?S)) 25)
      \<lparr>penalty_multiplier := Finite 1\<rparr>"
  have f: "find_max_step ?E (members rs1) (current_state rs1) (barrier_size ?rs) = (?step, ?opt)"
    unfolding cs profile_run_state_simps by (rule profile_find_max_step) (simp add: pm)
  have popt: "penalty_multiplier ?opt = Finite 1" by simp
  have ts: "take_scaled_step ?E ?opt (current_state rs1) ?step descent_requirement 25
      = profile_state (0.4 + 8 * ?S + ?S)"
    unfolding cs
  proof (rule profile_take_full_step[OF popt])
    show "merit_profile (0.4 + 8 * ?S + ?S)
        < merit_profile (0.4 + 8 * ?S)
          + descent_requirement *
            ((merit_profile (0.4 + 8 * ?S + 0.0001 * ?S) - merit_profile (0.4 + 8 * ?S)) / 0.0001)"
      unfolding merit_profile_values by simp
  qed
  have m: "calculate_exact_merit ?E ?opt
      (take_scaled_step ?E ?opt (current_state rs1) ?step descent_requirement 25) 25 < goal_merit w"
    unfolding ts profile_merit[OF popt] gm merit_profile_values using profile_step_size_bounds
    by simp
  have u': "uphill_loop ?E (current_state ?rs) 0 ?rs ?w0 = (rs1, w)"
    using u by (simp add: profile_run_state_simps)
  have m': "calculate_exact_merit ?E ?opt (current_state rs1) (barrier_size ?rs)
           < calculate_exact_merit ?E ?opt (current_state ?rs) (barrier_size ?rs)
         \<or> calculate_exact_merit ?E ?opt
              (take_scaled_step ?E ?opt (current_state rs1) ?step descent_requirement (barrier_size ?rs))
              (barrier_size ?rs) < goal_merit w"
    using m by (simp add: profile_run_state_simps)
  have f': "find_max_step ?E (members rs1) (current_state rs1) 25 = (?step, ?opt)"
    using f by (simp add: profile_run_state_simps)
  from watchdog_accepts_stretch_state[OF u' nf f refl m']
  have r: "current_state (watchdog_cycle ?E ?rs)
        = take_scaled_step ?E ?opt (current_state rs1) ?step descent_requirement 25
      \<and> iteration_number (watchdog_cycle ?E ?rs) = 9"
    by (simp add: profile_run_state_simps max_uphill_steps_def)
  from u' nf f' m r show ?thesis by blast
qed

text \<open>
  The claim as it was stated (acceptance of \<open>stretch_state\<close> at cost 9 whenever its merit
  is below the merit of \<open>watchdog_state\<close>) fails. From \<open>x = 0\<close> the eight steps fail the
  goal test (merit 10 against the goal \<open>10 - 0.0001 * s\<close>), \<open>stretch_state\<close> has merit
  \<open>10 - 0.00001\<close>, below the merit 10 of \<open>watchdog_state\<close> but not below the goal, and
  the current state has merit 10: the first test of the cascade fails, the second
  (\<open>stretch_state\<close> above \<open>watchdog_state\<close>) fails too, and the controller takes a new
  step from \<open>stretch_state\<close>, at cost \<open>max_uphill_steps + 2 = 10\<close>.
\<close>

theorem watchdog_stretch_below_watchdog_counterexample:
  "\<exists>rs1 w step opt.
     uphill_loop profile_environment (current_state (profile_run_state 0)) 0 (profile_run_state 0)
       \<lparr>found_step = False, watchdog_step = (\<lambda>b. []), goal_merit = Finite 0\<rparr> = (rs1, w)
     \<and> \<not> found_step w
     \<and> find_max_step profile_environment (members rs1) (current_state rs1) 25 = (step, opt)
     \<and> calculate_exact_merit profile_environment opt
          (take_scaled_step profile_environment opt (current_state rs1) step descent_requirement 25) 25
         < calculate_exact_merit profile_environment opt (current_state (profile_run_state 0)) 25
     \<and> current_state (watchdog_cycle profile_environment (profile_run_state 0))
         \<noteq> take_scaled_step profile_environment opt (current_state rs1) step descent_requirement 25
     \<and> iteration_number (watchdog_cycle profile_environment (profile_run_state 0)) = 10"
proof -
  let ?E = profile_environment
  let ?S = profile_step_size
  let ?rs = "profile_run_state 0"
  let ?w0 = "\<lparr>found_step = False, watchdog_step = (\<lambda>b. []), goal_merit = Finite 0\<rparr>"
  let ?step = "block_scale ?S profile_step"
  from profile_uphill_loop[where k = 0 and xw = 0 and rs = ?rs and w = ?w0] obtain rs1 w
    where u: "uphill_loop ?E (profile_state 0) 0 ?rs ?w0 = (rs1, w)"
      and nf: "\<not> found_step w"
      and cs: "current_state rs1 = profile_state (8 * ?S)"
      and pm: "penalty_multiplier (members rs1) = Finite 1"
      and bs: "barrier_size rs1 = 25"
      and it: "iteration_number rs1 = 0"
      and gm: "goal_merit w = Finite (10 - 0.0001 * ?S)"
    by (auto simp: profile_run_state_simps)
  let ?opt = "(newton_system ?E (members rs1) (profile_state (8 * ?S)) 25)
      \<lparr>penalty_multiplier := Finite 1\<rparr>"
  have f: "find_max_step ?E (members rs1) (current_state rs1) 25 = (?step, ?opt)"
    unfolding cs by (rule profile_find_max_step) (simp add: pm)
  have popt: "penalty_multiplier ?opt = Finite 1" by simp
  have ts: "take_scaled_step ?E ?opt (current_state rs1) ?step descent_requirement 25
      = profile_state (8 * ?S + ?S)"
    unfolding cs
  proof (rule profile_take_full_step[OF popt])
    show "merit_profile (8 * ?S + ?S)
        < merit_profile (8 * ?S)
          + descent_requirement *
            ((merit_profile (8 * ?S + 0.0001 * ?S) - merit_profile (8 * ?S)) / 0.0001)"
      unfolding merit_profile_values by simp
  qed
  let ?opt2 = "(newton_system ?E ?opt (profile_state (8 * ?S + ?S)) 25)
      \<lparr>penalty_multiplier := Finite 1\<rparr>"
  have f2: "find_max_step ?E ?opt (profile_state (8 * ?S + ?S)) 25 = (?step, ?opt2)"
    by (rule profile_find_max_step) simp
  have popt2: "penalty_multiplier ?opt2 = Finite 1" by simp
  have ts2: "take_scaled_step ?E ?opt2 (profile_state (8 * ?S + ?S)) ?step descent_requirement 25
      = profile_state (8 * ?S + ?S + ?S)"
  proof (rule profile_take_full_step[OF popt2])
    show "merit_profile (8 * ?S + ?S + ?S)
        < merit_profile (8 * ?S + ?S)
          + descent_requirement *
            ((merit_profile (8 * ?S + ?S + 0.0001 * ?S) - merit_profile (8 * ?S + ?S)) / 0.0001)"
      unfolding merit_profile_values by simp
  qed
  have below: "calculate_exact_merit ?E ?opt
      (take_scaled_step ?E ?opt (current_state rs1) ?step descent_requirement 25) 25
      < calculate_exact_merit ?E ?opt (current_state ?rs) 25"
    unfolding ts profile_run_state_simps profile_merit[OF popt] merit_profile_values by simp
  have c1: "\<not> (calculate_exact_merit ?E ?opt (current_state rs1) 25
           < calculate_exact_merit ?E ?opt (profile_state 0) 25
         \<or> calculate_exact_merit ?E ?opt
              (take_scaled_step ?E ?opt (current_state rs1) ?step descent_requirement 25) 25
             < goal_merit w)"
    unfolding ts unfolding cs profile_merit[OF popt] gm merit_profile_values
    using profile_step_size_bounds by simp
  have c2: "\<not> calculate_exact_merit ?E ?opt (profile_state 0) 25
         < calculate_exact_merit ?E ?opt
            (take_scaled_step ?E ?opt (current_state rs1) ?step descent_requirement 25) 25"
    unfolding ts unfolding profile_merit[OF popt] merit_profile_values by simp
  have wc: "watchdog_cycle ?E ?rs = backtrack ?E (profile_state 0) rs1 w"
    using u nf by (simp add: watchdog_cycle_def Let_def profile_run_state_simps)
  have res: "current_state (backtrack ?E (profile_state 0) rs1 w) = profile_state (8 * ?S + ?S + ?S)
      \<and> iteration_number (backtrack ?E (profile_state 0) rs1 w) = 10"
  proof (cases rule: backtrack_cases[of ?E rs1 "profile_state 0" w])
    case (stretch step opt)
    from stretch(1) f have "step = ?step" "opt = ?opt" unfolding bs by simp_all
    with stretch(2) c1 show ?thesis unfolding bs by blast
  next
    case (from_watchdog step opt)
    from from_watchdog(1) f have "step = ?step" "opt = ?opt" unfolding bs by simp_all
    with from_watchdog(3) c2 show ?thesis unfolding bs by blast
  next
    case (from_stretch step opt stretch_step opt2)
    from from_stretch(1) f have so: "step = ?step" "opt = ?opt" unfolding bs by simp_all
    from from_stretch(4) f2 have so2: "stretch_step = ?step" "opt2 = ?opt2"
      unfolding so bs ts by simp_all
    from from_stretch(5) show ?thesis
      unfolding so so2 bs ts ts2 by (simp add: it max_uphill_steps_def)
  qed
  have ne: "profile_state (8 * ?S + ?S + ?S) \<noteq> profile_state (8 * ?S + ?S)"
  proof
    assume "profile_state (8 * ?S + ?S + ?S) = profile_state (8 * ?S + ?S)"
    then have "profile_state (8 * ?S + ?S + ?S) density = profile_state (8 * ?S + ?S) density"
      by (rule fun_cong)
    then show False using profile_step_size_bounds by simp
  qed
  have u': "uphill_loop ?E (current_state ?rs) 0 ?rs ?w0 = (rs1, w)"
    using u by (simp add: profile_run_state_simps)
  have r: "current_state (watchdog_cycle ?E ?rs)
        \<noteq> take_scaled_step ?E ?opt (current_state rs1) ?step descent_requirement 25
      \<and> iteration_number (watchdog_cycle ?E ?rs) = 10"
    using wc res ne unfolding ts by auto
  from u' nf f below r show ?thesis by blast
qed

end
